theory Spec2Isabelle
  imports Main "HOL-Library.Word"
begin

unbundle bit_operations_syntax

section \<open>Machine types\<close>

text \<open>
  The allocator is modelled for a 64-bit target (LP64 or Win64): \<open>size_t\<close> and
  \<open>char *\<close> are 64-bit words, pointer arithmetic and pointer comparison are the
  unsigned machine operations on addresses, \<open>int\<close> and \<open>s32\<close> are 32-bit words.
  \<open>NULL\<close> is the address 0.
\<close>

type_synonym size_t = "64 word"
type_synonym ptr = "64 word"
type_synonym s32 = "32 word"
type_synonym c_int = "32 word"
type_synonym c_long = "64 word"

definition NULL :: ptr where
  "NULL = 0"

definition V_ALLOC_ALIGNMENT :: size_t where
  "V_ALLOC_ALIGNMENT = 16"

definition MAX_ARENA_CAPACITY :: size_t where
  "MAX_ARENA_CAPACITY = 1024 * 1024 * 1024"

text \<open>
  Modelled from the spec: the macro \<open>ALIGN_UP(n, a)\<close> is used by the source but its
  definition is not part of it. The specification says that a request is "rounded up" to
  the allocator's alignment or to the page size; the model is the usual power-of-two
  round-up on \<open>size_t\<close>, \<open>(n + a - 1) & ~(a - 1)\<close>. For \<open>a\<close> a power of two and
  \<open>n + a - 1\<close> representable this is the least multiple of \<open>a\<close> that is at least
  \<open>n\<close> (lemmas \<open>unat_ALIGN_UP\<close>, \<open>ALIGN_UP_ge\<close>, \<open>ALIGN_UP_dvd\<close> below).
\<close>

definition ALIGN_UP :: "size_t \<Rightarrow> size_t \<Rightarrow> size_t" where
  "ALIGN_UP n a = (n + a - 1) AND NOT (a - 1)"

text \<open>
  Modelled from the spec: the macro \<open>ALIGN_DOWN_PTR(p, a)\<close> is used by
  \<open>v_alloc_decommit\<close> but its definition is not part of the source. The specification
  says the decommit target is "page-aligned downward"; the model clears the low bits of
  the address, \<open>p & ~(a - 1)\<close>.
\<close>

definition ALIGN_DOWN_PTR :: "ptr \<Rightarrow> size_t \<Rightarrow> ptr" where
  "ALIGN_DOWN_PTR p a = p AND NOT (a - 1)"


section \<open>The platform memory provider\<close>

text \<open>
  The calls made through the dispatch table, in the order they are made. The list is a
  ghost component of the model: the source keeps no such log, it is what an observer of
  the platform layer would see.
\<close>

datatype call =
    Reserve size_t
  | Commit ptr size_t size_t
  | Decommit ptr size_t
  | Release ptr size_t

text \<open>
  \<open>V_Allocator\<close> is the dispatch table of the source, the global \<open>v_alloc\<close>. Its four
  function pointers are pure functions here: what the operating system answers is part
  of the function. \<open>reserve\<close> is the one entry that writes the global (it caches the
  page size on first use), so it takes the cached page size and returns the new one with
  the address. \<open>calls\<close> is the ghost log.
\<close>

record V_Allocator =
  reserve :: "size_t \<Rightarrow> size_t \<Rightarrow> ptr \<times> size_t"
  commit :: "ptr \<Rightarrow> size_t \<Rightarrow> size_t \<Rightarrow> bool"
  decommit :: "ptr \<Rightarrow> size_t \<Rightarrow> bool"
  release :: "ptr \<Rightarrow> size_t \<Rightarrow> bool"
  page_size :: size_t
  calls :: "call list"

text \<open>
  The source fills the table at build time with its POSIX or its Windows functions. The
  POSIX functions are modelled below, system call by system call. The theorems about the
  allocator are stated for an arbitrary table, so they hold for both.
\<close>

text \<open>The four calls \<open>v_alloc.reserve(..)\<close>, \<open>v_alloc.commit(..)\<close>, \<open>v_alloc.decommit(..)\<close>
  and \<open>v_alloc.release(..)\<close>: the answer, and the table with the call logged.\<close>

definition va_reserve :: "V_Allocator \<Rightarrow> size_t \<Rightarrow> ptr \<times> V_Allocator" where
  "va_reserve va n =
     (let (p, ps) = reserve va (V_Allocator.page_size va) n
      in (p, va\<lparr>V_Allocator.page_size := ps, calls := calls va @ [Reserve n]\<rparr>))"

definition va_commit :: "V_Allocator \<Rightarrow> ptr \<Rightarrow> size_t \<Rightarrow> size_t \<Rightarrow> bool \<times> V_Allocator" where
  "va_commit va addr total_size additional_bytes =
     (commit va addr total_size additional_bytes,
      va\<lparr>calls := calls va @ [Commit addr total_size additional_bytes]\<rparr>)"

definition va_decommit :: "V_Allocator \<Rightarrow> ptr \<Rightarrow> size_t \<Rightarrow> bool \<times> V_Allocator" where
  "va_decommit va addr n =
     (decommit va addr n, va\<lparr>calls := calls va @ [Decommit addr n]\<rparr>)"

definition va_release :: "V_Allocator \<Rightarrow> ptr \<Rightarrow> size_t \<Rightarrow> bool \<times> V_Allocator" where
  "va_release va addr n =
     (release va addr n, va\<lparr>calls := calls va @ [Release addr n]\<rparr>)"


subsection \<open>The POSIX provider\<close>

text \<open>
  What the operating system answers to the system calls of the POSIX provider. \<open>mmap\<close>
  answers an address or \<open>MAP_FAILED\<close>, the other calls answer 0 or -1.
\<close>

datatype prot = PROT_NONE | PROT_READ_WRITE

record posix =
  mmap :: "size_t \<Rightarrow> ptr"
  mprotect :: "ptr \<Rightarrow> size_t \<Rightarrow> prot \<Rightarrow> s32"
  madvise :: "ptr \<Rightarrow> size_t \<Rightarrow> s32"
  munmap :: "ptr \<Rightarrow> size_t \<Rightarrow> s32"
  sysconf_PAGESIZE :: c_long

definition MAP_FAILED :: ptr where
  "MAP_FAILED = - 1"

definition v_alloc_posix_get_page_size :: "posix \<Rightarrow> size_t" where
  "v_alloc_posix_get_page_size os =
     (let page_size = (ucast (sysconf_PAGESIZE os) :: s32)
      in if page_size \<le>s 0 then 0 else scast page_size)"

definition v_alloc_posix_reserve :: "posix \<Rightarrow> size_t \<Rightarrow> size_t \<Rightarrow> ptr \<times> size_t" where
  "v_alloc_posix_reserve os cached n =
     (let cached = (if cached = 0 then v_alloc_posix_get_page_size os else cached);
          p = mmap os n
      in (if p = MAP_FAILED then NULL else p, cached))"

definition v_alloc_posix_commit :: "posix \<Rightarrow> ptr \<Rightarrow> size_t \<Rightarrow> size_t \<Rightarrow> bool" where
  "v_alloc_posix_commit os addr total_size additional_bytes =
     (let addr = addr + total_size - additional_bytes;
          result = mprotect os addr additional_bytes PROT_READ_WRITE
      in (if result \<noteq> 0 then True else False))"

definition v_alloc_posix_decommit :: "posix \<Rightarrow> ptr \<Rightarrow> size_t \<Rightarrow> bool" where
  "v_alloc_posix_decommit os addr extra_size =
     (let result = madvise os addr extra_size;
          result = (if result = 0 then mprotect os addr extra_size PROT_NONE else result)
      in result = 0)"

definition v_alloc_posix_release :: "posix \<Rightarrow> ptr \<Rightarrow> size_t \<Rightarrow> bool" where
  "v_alloc_posix_release os addr n = (if munmap os addr n = 0 then True else False)"

definition v_alloc_posix :: "posix \<Rightarrow> V_Allocator" where
  "v_alloc_posix os =
     \<lparr>reserve = v_alloc_posix_reserve os,
      commit = v_alloc_posix_commit os,
      decommit = v_alloc_posix_decommit os,
      release = v_alloc_posix_release os,
      page_size = 0,
      calls = []\<rparr>"


section \<open>The arena allocator\<close>

text \<open>The descriptor. The field \<open>end\<close> of the source is \<open>end'\<close> here: \<open>end\<close> is a
  keyword of Isabelle.\<close>

record AllocInfo =
  base :: ptr
  ptr :: ptr
  end' :: ptr
  reserved_size :: size_t
  page_size :: size_t

text \<open>The zero-valued descriptor, \<open>AllocInfo alloc_info = {0}\<close>.\<close>

definition AllocInfo_zero :: AllocInfo where
  "AllocInfo_zero = \<lparr>base = 0, ptr = 0, end' = 0, reserved_size = 0, page_size = 0\<rparr>"

text \<open>
  Every operation takes the dispatch table and the descriptor and returns its C result
  with the descriptor and the table as the call leaves them.
\<close>

definition v_alloc_reserve ::
  "V_Allocator \<Rightarrow> AllocInfo \<Rightarrow> size_t \<Rightarrow> bool \<times> AllocInfo \<times> V_Allocator" where
  "v_alloc_reserve va alloc_info reserve_size =
     (let (p, va) = va_reserve va reserve_size;
          alloc_info = alloc_info\<lparr>base := p\<rparr>
      in if base alloc_info = NULL then (False, alloc_info, va)
         else (True,
               alloc_info\<lparr>ptr := base alloc_info,
                          end' := base alloc_info,
                          reserved_size := reserve_size,
                          page_size := V_Allocator.page_size va\<rparr>,
               va))"

text \<open>The lazy reservation shared by \<open>v_alloc_committ\<close> and \<open>v_alloc_resize\<close>:
  \<open>if (alloc_info->base == 0) { if (!v_alloc_reserve(alloc_info, MAX_ARENA_CAPACITY)) return NULL; }\<close>.
  The boolean is False where the source returns \<open>NULL\<close>.\<close>

definition reserve_default ::
  "V_Allocator \<Rightarrow> AllocInfo \<Rightarrow> bool \<times> AllocInfo \<times> V_Allocator" where
  "reserve_default va alloc_info =
     (if base alloc_info = 0 then v_alloc_reserve va alloc_info MAX_ARENA_CAPACITY
      else (True, alloc_info, va))"

text \<open>The conversion of the \<open>bool\<close> that \<open>v_alloc.commit\<close> returns to the \<open>int result\<close>
  of the caller.\<close>

definition int_of_bool :: "bool \<Rightarrow> c_int" where
  "int_of_bool b = (if b then 1 else 0)"

definition v_alloc_committ ::
  "V_Allocator \<Rightarrow> AllocInfo \<Rightarrow> size_t \<Rightarrow> ptr \<times> AllocInfo \<times> V_Allocator" where
  "v_alloc_committ va alloc_info additional_bytes =
     (if additional_bytes = 0 then (NULL, alloc_info, va)
      else
        let additional_bytes = ALIGN_UP additional_bytes V_ALLOC_ALIGNMENT in
        if additional_bytes > end' alloc_info - ptr alloc_info then
          (let (reserved, alloc_info, va) = reserve_default va alloc_info in
           if \<not> reserved then (NULL, alloc_info, va)
           else
             let adjusted_additional_bytes = ALIGN_UP additional_bytes (page_size alloc_info) in
             if ptr alloc_info + adjusted_additional_bytes
                  > base alloc_info + reserved_size alloc_info
             then (NULL, alloc_info, va)
             else
               let new_size = end' alloc_info - base alloc_info + adjusted_additional_bytes;
                   (committed, va) = va_commit va (base alloc_info) new_size adjusted_additional_bytes;
                   result = int_of_bool committed
               in if result = - 1 then (NULL, alloc_info, va)
                  else
                    let alloc_info = alloc_info\<lparr>end' := base alloc_info + new_size\<rparr>;
                        p = ptr alloc_info
                    in (p, alloc_info\<lparr>ptr := ptr alloc_info + additional_bytes\<rparr>, va))
        else
          (let p = ptr alloc_info
           in (p, alloc_info\<lparr>ptr := ptr alloc_info + additional_bytes\<rparr>, va)))"

text \<open>\<open>v_alloc_reset\<close> and \<open>v_alloc_decommit\<close> test their descriptor pointer against
  \<open>NULL\<close>: the descriptor argument is an option, \<open>None\<close> for the null pointer.\<close>

definition v_alloc_reset :: "AllocInfo option \<Rightarrow> AllocInfo option" where
  "v_alloc_reset alloc_info =
     (case alloc_info of
        None \<Rightarrow> None
      | Some a \<Rightarrow> Some (a\<lparr>ptr := base a\<rparr>))"

definition v_alloc_decommit ::
  "V_Allocator \<Rightarrow> AllocInfo option \<Rightarrow> size_t \<Rightarrow> bool \<times> AllocInfo option \<times> V_Allocator" where
  "v_alloc_decommit va alloc_info extra_size =
     (case alloc_info of
        None \<Rightarrow> (False, None, va)
      | Some a \<Rightarrow>
          if extra_size = 0 then (False, Some a, va)
          else
            let extra_size = ALIGN_UP extra_size (page_size a) in
            if extra_size > end' a - base a then (False, Some a, va)
            else
              let decommit_start = ALIGN_DOWN_PTR (end' a - extra_size) (page_size a);
                  (result, va) = va_decommit va decommit_start extra_size
              in (result, Some (if result then a\<lparr>end' := decommit_start\<rparr> else a), va))"

definition v_alloc_free ::
  "V_Allocator \<Rightarrow> AllocInfo \<Rightarrow> bool \<times> AllocInfo \<times> V_Allocator" where
  "v_alloc_free va alloc_info =
     (if base alloc_info = NULL then (False, alloc_info, va)
      else
        let (released, va) = va_release va (base alloc_info) (reserved_size alloc_info)
        in (released, alloc_info, va))"


section \<open>The growable allocation\<close>

text \<open>
  The capacity test of \<open>v_alloc_resize\<close>,
  \<open>adjusted_size_in_bytes + alloc_info->base > alloc_info->base + alloc_info->reserved_size\<close>,
  adds two offsets to the same pointer and compares the results. Pointer addition does
  not wrap around in C, so what the compiled code compares is the two offsets, as the
  signed values that pointer arithmetic takes them for: the test is the signed comparison
  \<open>reserved_size < adjusted_size_in_bytes\<close>, and a page-rounded size of \<open>2 ^ 63\<close> or
  more passes it as a negative offset. The test of \<open>v_alloc_committ\<close> adds to two
  different pointers, \<open>ptr\<close> and \<open>base\<close>, and compares the two addresses.
\<close>

definition v_alloc_resize ::
  "V_Allocator \<Rightarrow> AllocInfo \<Rightarrow> size_t \<Rightarrow> ptr \<times> AllocInfo \<times> V_Allocator" where
  "v_alloc_resize va alloc_info size_in_bytes =
     (if size_in_bytes = 0 then
        (let (released, alloc_info, va) = v_alloc_free va alloc_info
         in (NULL, alloc_info, va))
      else if size_in_bytes > end' alloc_info - base alloc_info then
        (let (reserved, alloc_info, va) = reserve_default va alloc_info in
         if \<not> reserved then (NULL, alloc_info, va)
         else
           let adjusted_size_in_bytes = ALIGN_UP size_in_bytes (page_size alloc_info) in
           if reserved_size alloc_info <s adjusted_size_in_bytes
           then (NULL, alloc_info, va)
           else
             let additional_bytes =
                   adjusted_size_in_bytes - (end' alloc_info - base alloc_info);
                 (committed, va) =
                   va_commit va (base alloc_info) adjusted_size_in_bytes additional_bytes;
                 result = int_of_bool committed
             in if result = - 1 then (NULL, alloc_info, va)
                else
                  let alloc_info =
                        alloc_info\<lparr>end' := base alloc_info + adjusted_size_in_bytes\<rparr>;
                      alloc_info = alloc_info\<lparr>ptr := end' alloc_info\<rparr>
                  in (base alloc_info, alloc_info, va))
      else (base alloc_info, alloc_info, va))"

text \<open>
  \<open>AllocHdr\<close> is an \<open>AllocInfo\<close> followed by the data, aligned to
  \<open>V_ALLOC_ALIGNMENT\<close>: with five 8-byte fields the descriptor takes 40 bytes and
  \<open>offsetof(AllocHdr, data)\<close> is 48. The memory holding the headers is a function from
  the address of a header to the descriptor stored there; whether an address is mapped is
  the platform's business and is not modelled.
\<close>

definition offsetof_AllocHdr_data :: size_t where
  "offsetof_AllocHdr_data = 48"

type_synonym memory = "ptr \<Rightarrow> AllocInfo"

definition v_alloc_hdr_from_data :: "ptr \<Rightarrow> ptr" where
  "v_alloc_hdr_from_data data = data - offsetof_AllocHdr_data"

text \<open>\<open>alloc_hdr->data\<close>: the address of the data of the header at \<open>alloc_hdr\<close>.\<close>

definition hdr_data :: "ptr \<Rightarrow> ptr" where
  "hdr_data alloc_hdr = alloc_hdr + offsetof_AllocHdr_data"

definition v_alloc_realloc ::
  "V_Allocator \<Rightarrow> memory \<Rightarrow> ptr \<Rightarrow> size_t \<Rightarrow> ptr \<times> memory \<times> V_Allocator" where
  "v_alloc_realloc va mem data total_size =
     (if total_size = 0 then
        (if data = NULL then (NULL, mem, va)
         else
           let alloc_hdr = v_alloc_hdr_from_data data;
               (released, alloc_info, va) = v_alloc_free va (mem alloc_hdr)
           in (NULL, mem(alloc_hdr := alloc_info), va))
      else
        let total_size = total_size + offsetof_AllocHdr_data in
        if data = NULL then
          (let alloc_info = AllocInfo_zero;
               (r, alloc_info, va) = v_alloc_resize va alloc_info total_size
           in if r = NULL then (NULL, mem, va)
              else
                let alloc_hdr = base alloc_info
                in (hdr_data alloc_hdr, mem(alloc_hdr := alloc_info), va))
        else
          (let alloc_hdr = v_alloc_hdr_from_data data;
               (r, alloc_info, va) = v_alloc_resize va (mem alloc_hdr) total_size;
               mem = mem(alloc_hdr := alloc_info)
           in if r = NULL then (NULL, mem, va)
              else (hdr_data alloc_hdr, mem, va)))"


section \<open>Sequences of calls\<close>

text \<open>
  Between two calls the operating system may answer differently. A sequence of calls is
  a list of steps, each with the table whose four functions answer that call; the cached
  page size and the log are carried over from the call before.
\<close>

definition with_answers :: "V_Allocator \<Rightarrow> V_Allocator \<Rightarrow> V_Allocator" where
  "with_answers va os = os\<lparr>V_Allocator.page_size := V_Allocator.page_size va, calls := calls va\<rparr>"

text \<open>The caller's loop \<open>data = v_alloc_realloc(data, n)\<close>: the pointers returned.\<close>

fun realloc_calls ::
  "V_Allocator \<Rightarrow> memory \<Rightarrow> ptr \<Rightarrow> (V_Allocator \<times> size_t) list \<Rightarrow> ptr list" where
  "realloc_calls va mem data [] = []"
| "realloc_calls va mem data ((os, n) # steps) =
     (let (r, mem, va) = v_alloc_realloc (with_answers va os) mem data n
      in r # realloc_calls va mem r steps)"

text \<open>Successive \<open>v_alloc_committ\<close> calls on one descriptor: the pointers returned and
  the descriptor after the last call.\<close>

fun committ_calls ::
  "V_Allocator \<Rightarrow> AllocInfo \<Rightarrow> (V_Allocator \<times> size_t) list \<Rightarrow> ptr list \<times> AllocInfo" where
  "committ_calls va alloc_info [] = ([], alloc_info)"
| "committ_calls va alloc_info ((os, n) # steps) =
     (let (p, alloc_info, va) = v_alloc_committ (with_answers va os) alloc_info n;
          (ps, alloc_info) = committ_calls va alloc_info steps
      in (p # ps, alloc_info))"


section \<open>The descriptor invariant\<close>

text \<open>
  \<open>base \<le> ptr \<le> end \<le> base + reserved_size\<close>, with \<open>end - base\<close> a multiple of the
  page size. The last bound is read on the numbers, so that it says what it means also
  where \<open>base + reserved_size\<close> would wrap around as a word.
\<close>

definition descriptor_ordered :: "AllocInfo \<Rightarrow> bool" where
  "descriptor_ordered a \<longleftrightarrow>
     base a \<le> ptr a \<and> ptr a \<le> end' a
     \<and> unat (page_size a) dvd unat (end' a) - unat (base a)"

definition within_reservation :: "AllocInfo \<Rightarrow> bool" where
  "within_reservation a \<longleftrightarrow> unat (end' a) \<le> unat (base a) + unat (reserved_size a)"

definition descriptor_inv :: "AllocInfo \<Rightarrow> bool" where
  "descriptor_inv a \<longleftrightarrow> descriptor_ordered a \<and> within_reservation a"


section \<open>Allocated ranges\<close>

text \<open>The ranges that successive \<open>v_alloc_committ\<close> calls hand out: each returned
  pointer with the aligned size of its request, \<open>[p, p + ALIGN_UP(n, 16))\<close>.\<close>

definition ranges :: "ptr list \<Rightarrow> (V_Allocator \<times> size_t) list \<Rightarrow> (ptr \<times> size_t) list" where
  "ranges ps steps = zip ps (map (\<lambda>(os, n). ALIGN_UP n V_ALLOC_ALIGNMENT) steps)"

text \<open>
  A reserved arena in the state the allocator keeps it in between allocations: the page
  size is \<open>2 ^ k\<close>, the cursor is between \<open>base\<close> and \<open>end\<close>, and it is 16-byte
  aligned.
\<close>

definition arena_state :: "nat \<Rightarrow> AllocInfo \<Rightarrow> bool" where
  "arena_state k a \<longleftrightarrow>
     base a \<noteq> NULL \<and> page_size a = 2 ^ k \<and> k < 64
     \<and> base a \<le> ptr a \<and> ptr a \<le> end' a
     \<and> 16 dvd unat (ptr a)"


section \<open>Concrete platforms and descriptors\<close>

text \<open>An operating system that maps at the address \<open>addr\<close>, has pages of 4096 bytes, and
  whose calls all succeed; and one whose \<open>mprotect\<close> fails.\<close>

definition posix_ok :: "ptr \<Rightarrow> posix" where
  "posix_ok addr =
     \<lparr>mmap = (\<lambda>n. addr),
      mprotect = (\<lambda>a n p. 0),
      madvise = (\<lambda>a n. 0),
      munmap = (\<lambda>a n. 0),
      sysconf_PAGESIZE = 4096\<rparr>"

definition posix_mprotect_fails :: "ptr \<Rightarrow> posix" where
  "posix_mprotect_fails addr = (posix_ok addr)\<lparr>mprotect := (\<lambda>a n p. - 1)\<rparr>"

text \<open>An operating system whose \<open>sysconf\<close> fails with -1 (all bits set, as a
  \<open>long\<close>): \<open>v_alloc_posix_get_page_size\<close> answers 0, and that is the page size of
  every descriptor reserved on it.\<close>

definition posix_no_page_size :: "ptr \<Rightarrow> posix" where
  "posix_no_page_size addr = (posix_ok addr)\<lparr>sysconf_PAGESIZE := 0xFFFFFFFFFFFFFFFF\<rparr>"

text \<open>A table whose \<open>commit\<close> answers false, as the Windows provider does when
  \<open>VirtualAlloc\<close> fails; the other entries succeed.\<close>

definition commit_refused :: "ptr \<Rightarrow> V_Allocator" where
  "commit_refused addr =
     \<lparr>reserve = (\<lambda>cached n. (addr, if cached = 0 then 4096 else cached)),
      commit = (\<lambda>a t n. False),
      decommit = (\<lambda>a n. True),
      release = (\<lambda>a n. True),
      page_size = 0,
      calls = []\<rparr>"

text \<open>An arena of \<open>reserved\<close> bytes at \<open>b\<close> with 4096-byte pages, \<open>used\<close> bytes
  allocated and \<open>committed\<close> bytes committed.\<close>

definition arena :: "ptr \<Rightarrow> size_t \<Rightarrow> size_t \<Rightarrow> size_t \<Rightarrow> AllocInfo" where
  "arena b used committed reserved =
     \<lparr>base = b, ptr = b + used, end' = b + committed,
      reserved_size = reserved, page_size = 4096\<rparr>"

text \<open>\<open>SIZE_MAX\<close>, the largest \<open>size_t\<close>.\<close>

definition SIZE_MAX :: size_t where
  "SIZE_MAX = - 1"


section \<open>Rounding to a power of two\<close>

text \<open>The two macros, read as numbers: for a power of two \<open>2 ^ k\<close> they round to a
  multiple of it, \<open>ALIGN_UP\<close> upwards when the sum does not wrap around.\<close>

lemma unat_and_mask: "unat ((x::64 word) AND mask k) = unat x mod 2 ^ k"
proof -
  have "unat (take_bit k x) = take_bit k (unat x)" by (rule unsigned_take_bit_eq)
  then show ?thesis by (simp only: take_bit_eq_mask [symmetric] take_bit_eq_mod)
qed

lemma and_not_mask_diff: "(x::64 word) AND NOT (mask k) = x - (x AND mask k)"
proof -
  have "x - (x AND mask k) = x AND NOT (x AND mask k)"
    by (rule disjunctive_diff_eq_and_not) (simp add: and.left_commute flip: and.assoc)
  also have "\<dots> = x AND NOT (mask k)"
    by (rule bit_word_eqI) (auto simp: bit_simps)
  finally show ?thesis by simp
qed

lemma unat_and_not_mask:
  "unat ((x::64 word) AND NOT (mask k)) = unat x - unat x mod 2 ^ k"
proof -
  have "x AND mask k \<le> x" by (rule word_and_le2)
  then have "unat (x - (x AND mask k)) = unat x - unat (x AND mask k)"
    by (rule unat_sub)
  then show ?thesis by (simp add: and_not_mask_diff unat_and_mask)
qed

lemma unat_pow2:
  assumes "k < 64"
  shows "unat (2 ^ k :: 64 word) = 2 ^ k"
proof -
  have lt: "(2::nat) ^ k < 2 ^ 64"
    using assms by (simp only: power_strict_increasing_iff one_less_numeral_iff semiring_norm)
  have "(2 ^ k :: 64 word) = of_nat (2 ^ k)" by simp
  then have "unat (2 ^ k :: 64 word) = 2 ^ k mod 2 ^ 64"
    by (simp only: unat_of_nat len_bit0 len_num1) simp
  with lt show ?thesis by simp
qed

lemma unat_pow2_minus1:
  assumes "k < 64"
  shows "unat (2 ^ k - 1 :: 64 word) = 2 ^ k - 1"
proof -
  have "unat (1::64 word) \<le> unat (2 ^ k :: 64 word)"
    using assms by (simp add: unat_pow2)
  then have "(1::64 word) \<le> 2 ^ k" by (simp only: word_le_nat_alt)
  then have "unat (2 ^ k - 1 :: 64 word) = unat (2 ^ k :: 64 word) - unat (1 :: 64 word)"
    by (rule unat_sub)
  then show ?thesis using assms by (simp add: unat_pow2)
qed

lemma unat_ALIGN_DOWN_PTR:
  assumes "k < 64"
  shows "unat (ALIGN_DOWN_PTR p (2 ^ k)) = unat p - unat p mod 2 ^ k"
  by (simp add: ALIGN_DOWN_PTR_def unat_and_not_mask flip: mask_eq_decr_exp)

lemma unat_ALIGN_UP:
  assumes k: "k < 64" and nw: "unat n + 2 ^ k \<le> 2 ^ 64"
  shows "unat (ALIGN_UP n (2 ^ k)) = (unat n + 2 ^ k - 1) - (unat n + 2 ^ k - 1) mod 2 ^ k"
proof -
  have eq: "n + 2 ^ k - 1 = n + (2 ^ k - 1)" by simp
  have "unat n + unat (2 ^ k - 1 :: 64 word) < 2 ^ 64"
    using nw k by (simp add: unat_pow2_minus1)
  then have "unat (n + (2 ^ k - 1)) = unat n + unat (2 ^ k - 1 :: 64 word)"
    by (simp add: unat_add_lem [THEN iffD1])
  then have "unat (n + 2 ^ k - 1) = unat n + 2 ^ k - 1"
    using k by (simp only: eq unat_pow2_minus1) simp
  then show ?thesis
    by (simp add: ALIGN_UP_def unat_and_not_mask flip: mask_eq_decr_exp)
qed

lemma round_up_dvd: "A dvd (x::nat) - x mod A"
  by (rule dvd_minus_mod)

lemma round_up_ge:
  fixes m A :: nat
  assumes "0 < A"
  shows "m \<le> (m + A - 1) - (m + A - 1) mod A"
proof -
  have "(m + A - 1) mod A < A" using assms by simp
  then show ?thesis by linarith
qed

lemma round_up_lt:
  fixes m A :: nat
  assumes "0 < A"
  shows "(m + A - 1) - (m + A - 1) mod A < m + A"
  using assms by linarith

lemma round_up_id:
  fixes m A :: nat
  assumes "0 < A" and "A dvd m"
  shows "(m + A - 1) - (m + A - 1) mod A = m"
proof -
  from assms(1) obtain d where A: "A = Suc d" by (cases A) auto
  from assms(2) obtain q where q: "m = A * q" ..
  have "m + A - 1 = q * Suc d + d" using A q by (simp add: mult.commute)
  moreover have "(q * Suc d + d) mod Suc d = d mod Suc d" by (rule mod_mult_self3)
  moreover have "d mod Suc d = d" by (rule mod_less) (rule lessI)
  ultimately have "(m + A - 1) mod A = d" using A by simp
  then show ?thesis using A by simp
qed

lemma ALIGN_UP_dvd:
  assumes "k < 64" and "unat n + 2 ^ k \<le> 2 ^ 64"
  shows "2 ^ k dvd unat (ALIGN_UP n (2 ^ k))"
  by (simp only: unat_ALIGN_UP [OF assms] round_up_dvd)

lemma ALIGN_UP_ge:
  assumes "k < 64" and "unat n + 2 ^ k \<le> 2 ^ 64"
  shows "unat n \<le> unat (ALIGN_UP n (2 ^ k))"
  by (simp only: unat_ALIGN_UP [OF assms]) (rule round_up_ge, simp)

lemma ALIGN_UP_lt:
  assumes "k < 64" and "unat n + 2 ^ k \<le> 2 ^ 64"
  shows "unat (ALIGN_UP n (2 ^ k)) < unat n + 2 ^ k"
  by (simp only: unat_ALIGN_UP [OF assms]) (rule round_up_lt, simp)

lemma ALIGN_UP_id:
  assumes "k < 64" and "unat n + 2 ^ k \<le> 2 ^ 64" and "2 ^ k dvd unat n"
  shows "unat (ALIGN_UP n (2 ^ k)) = unat n"
  by (simp only: unat_ALIGN_UP [OF assms(1,2)]) (rule round_up_id, simp, rule assms(3))

lemma ALIGN_DOWN_PTR_dvd:
  assumes "k < 64"
  shows "2 ^ k dvd unat (ALIGN_DOWN_PTR p (2 ^ k))"
  by (simp only: unat_ALIGN_DOWN_PTR [OF assms] round_up_dvd)

lemma ALIGN_DOWN_PTR_le:
  assumes "k < 64"
  shows "unat (ALIGN_DOWN_PTR p (2 ^ k)) \<le> unat p"
  by (simp only: unat_ALIGN_DOWN_PTR [OF assms] diff_le_self)

lemma ALIGN_DOWN_PTR_id:
  assumes "k < 64" and "2 ^ k dvd unat p"
  shows "ALIGN_DOWN_PTR p (2 ^ k) = p"
proof -
  have "unat (ALIGN_DOWN_PTR p (2 ^ k)) = unat p"
    using assms(2) by (simp only: unat_ALIGN_DOWN_PTR [OF assms(1)]) (simp add: dvd_eq_mod_eq_0)
  then show ?thesis by (simp only: word_unat_eq_iff)
qed

text \<open>The allocation alignment is \<open>2 ^ 4\<close>.\<close>

lemma V_ALLOC_ALIGNMENT_pow2: "V_ALLOC_ALIGNMENT = 2 ^ 4"
  by (simp add: V_ALLOC_ALIGNMENT_def)

lemma align16_dvd:
  assumes "unat n + 16 \<le> 2 ^ 64"
  shows "16 dvd unat (ALIGN_UP n V_ALLOC_ALIGNMENT)"
  using ALIGN_UP_dvd [of 4 n] assms by (simp add: V_ALLOC_ALIGNMENT_pow2)

lemma align16_ge:
  assumes "unat n + 16 \<le> 2 ^ 64"
  shows "unat n \<le> unat (ALIGN_UP n V_ALLOC_ALIGNMENT)"
  using ALIGN_UP_ge [of 4 n] assms by (simp add: V_ALLOC_ALIGNMENT_pow2)

lemma align16_lt:
  assumes "unat n + 16 \<le> 2 ^ 64"
  shows "unat (ALIGN_UP n V_ALLOC_ALIGNMENT) < unat n + 16"
  using ALIGN_UP_lt [of 4 n] assms by (simp add: V_ALLOC_ALIGNMENT_pow2)


text \<open>Rounding up to a power of two gives a multiple of it also when the sum wraps
  around, and then it gives 0.\<close>

lemma ALIGN_UP_dvd_always:
  assumes "k < 64"
  shows "2 ^ k dvd unat (ALIGN_UP n (2 ^ k))"
  by (simp add: ALIGN_UP_def unat_and_not_mask round_up_dvd flip: mask_eq_decr_exp)

lemma ALIGN_UP_wraps:
  assumes k: "k < 64" and w: "2 ^ 64 < unat n + 2 ^ k"
  shows "ALIGN_UP n (2 ^ k) = 0"
proof -
  let ?m = "mask k :: 64 word"
  define M :: nat where "M = 2 ^ 64"
  define K :: nat where "K = 2 ^ k"
  have m: "unat ?m = K - 1"
    unfolding K_def using unat_pow2_minus1 [OF k] by (simp only: mask_eq_decr_exp)
  have n: "unat n < M" unfolding M_def using unsigned_less [of n, where ?'a = nat] by simp
  have "(2 :: nat) ^ k \<le> 2 ^ 64" using k by (intro power_increasing) simp_all
  then have K: "0 < K" "K \<le> M" unfolding K_def M_def by simp_all
  have w': "M < unat n + K" using w unfolding M_def K_def .
  have "unat (n + ?m) = (unat n + unat ?m) mod M"
    unfolding M_def by (simp add: unat_word_ariths)
  also have "\<dots> = (unat n + (K - 1)) mod M" by (simp only: m)
  also have "\<dots> = unat n + (K - 1) - M"
  proof -
    have "M \<le> unat n + (K - 1)" using w' by linarith
    moreover have "unat n + (K - 1) - M < M" using n K by linarith
    ultimately show ?thesis by (simp add: mod_if)
  qed
  finally have "unat (n + ?m) < K" using n K by linarith
  then have "unat (n + ?m) mod 2 ^ k = unat (n + ?m)" unfolding K_def by simp
  then have "unat ((n + ?m) AND NOT (mask k)) = 0"
    by (simp only: unat_and_not_mask diff_self_eq_0)
  moreover have "ALIGN_UP n (2 ^ k) = (n + ?m) AND NOT (mask k)"
    by (simp add: ALIGN_UP_def mask_eq_decr_exp add_diff_eq)
  ultimately show ?thesis by (simp add: unat_eq_0)
qed

lemma dvd_unat_diff:
  fixes x y :: "64 word"
  assumes "k \<le> 64" and "2 ^ k dvd unat x" and "2 ^ k dvd unat y"
  shows "2 ^ k dvd unat (x - y)"
proof (cases "unat y \<le> unat x")
  case True
  then have "unat (x - y) = unat x - unat y" by (simp add: unat_sub_if')
  with assms(2,3) show ?thesis by (simp add: dvd_diff_nat)
next
  case False
  then have u: "unat (x - y) = unat x + 2 ^ 64 - unat y" by (simp add: unat_sub_if')
  have "(2::nat) ^ k dvd 2 ^ 64" using assms(1) by (rule le_imp_power_dvd)
  with assms(2) have "2 ^ k dvd unat x + 2 ^ 64" by (rule dvd_add)
  with assms(3) have "2 ^ k dvd unat x + 2 ^ 64 - unat y" by (rule dvd_diff_nat [rotated])
  with u show ?thesis by simp
qed


section \<open>Signed offsets\<close>


lemma sint_eq_unat:
  assumes "unat (x :: 64 word) < 2 ^ 63"
  shows "sint x = int (unat x)"
proof -
  have "int (unat x) < int (2 ^ 63)" using assms by (simp only: of_nat_less_iff)
  then have lt: "uint x < 2 ^ 63" by simp
  have "- (2 ^ 63) \<le> (0 :: int)" by simp
  from this uint_ge_0 [of x] have "- (2 ^ 63) \<le> uint x" by (rule order_trans)
  from this lt have "signed_take_bit 63 (uint x) = uint x"
    by (rule signed_take_bit_int_eq_self)
  then show ?thesis by (simp add: sint_uint)
qed


lemma signed_test_failed:
  fixes r x :: "64 word"
  assumes "unat x < 2 ^ 63" and "unat r < unat x"
  shows "r <s x"
proof -
  from assms have "unat r < 2 ^ 63" by (rule less_trans [rotated])
  then have r: "sint r = int (unat r)" by (rule sint_eq_unat)
  have x: "sint x = int (unat x)" by (rule sint_eq_unat [OF assms(1)])
  from assms(2) have "int (unat r) < int (unat x)" by (simp only: of_nat_less_iff)
  then show ?thesis by (simp only: word_sless_alt r x)
qed


section \<open>Zero-size rejection\<close>

text \<open>
  C5. For every descriptor, reserved or not, and every dispatch table,
  \<open>v_alloc_committ(descriptor, 0)\<close> returns \<open>NULL\<close> and leaves every field of the
  descriptor as it was; it makes no platform call either.
\<close>

theorem committ_zero_size_rejected:
  "v_alloc_committ va alloc_info 0 = (NULL, alloc_info, va)"
  by (simp add: v_alloc_committ_def)


section \<open>Resize within the committed region\<close>

text \<open>
  C8. For every reserved descriptor (\<open>base\<close> not \<open>NULL\<close>) and every request with
  \<open>0 < size_in_bytes \<le> end - base\<close>, \<open>v_alloc_resize\<close> returns \<open>base\<close>, which is
  not \<open>NULL\<close>, leaves the descriptor as it was (\<open>end\<close> and \<open>reserved_size\<close> among its
  fields) and makes no platform call: the log is unchanged, so nothing is decommitted.
\<close>

theorem resize_never_shrinks:
  assumes "base alloc_info \<noteq> NULL"
    and "0 < size_in_bytes"
    and "size_in_bytes \<le> end' alloc_info - base alloc_info"
  shows "v_alloc_resize va alloc_info size_in_bytes = (base alloc_info, alloc_info, va)
         \<and> fst (v_alloc_resize va alloc_info size_in_bytes) \<noteq> NULL"
  using assms by (simp add: v_alloc_resize_def word_gt_0 not_less [symmetric])

theorem resize_never_shrinks_witness:
  "base (arena 0x10000 8192 8192 1048576) \<noteq> NULL
   \<and> (0::size_t) < 100
   \<and> 100 \<le> end' (arena 0x10000 8192 8192 1048576) - base (arena 0x10000 8192 8192 1048576)
   \<and> v_alloc_resize (v_alloc_posix (posix_ok 0x10000)) (arena 0x10000 8192 8192 1048576) 100
     = (0x10000, arena 0x10000 8192 8192 1048576, v_alloc_posix (posix_ok 0x10000))
   \<and> calls (snd (snd (v_alloc_resize (v_alloc_posix (posix_ok 0x10000))
                         (arena 0x10000 8192 8192 1048576) 100))) = []"
proof -
  let ?a = "arena 0x10000 8192 8192 1048576"
  have h1: "base ?a \<noteq> NULL" by (simp add: arena_def NULL_def)
  have h2: "(0::size_t) < 100" by simp
  have h3: "100 \<le> end' ?a - base ?a" by (simp add: arena_def)
  from resize_never_shrinks [OF h1 h2 h3, of "v_alloc_posix (posix_ok 0x10000)"] h1 h2 h3
  show ?thesis by (simp add: arena_def v_alloc_posix_def)
qed


section \<open>Release\<close>

text \<open>
  C10. For every reserved descriptor, \<open>v_alloc_free\<close> leaves every field of the
  descriptor as it was, whatever the platform answers: \<open>base\<close> is still not \<open>NULL\<close>.
  The call releases the range \<open>(base, reserved_size)\<close>, and a second \<open>v_alloc_free\<close> on
  the descriptor passes the never-reserved test and releases the same range again.
\<close>

theorem free_keeps_descriptor:
  assumes "base alloc_info \<noteq> NULL"
    and "v_alloc_free va alloc_info = (released, alloc_info1, va1)"
    and "v_alloc_free va1 alloc_info1 = (released2, alloc_info2, va2)"
  shows "alloc_info1 = alloc_info \<and> base alloc_info1 \<noteq> NULL
         \<and> released = release va (base alloc_info) (reserved_size alloc_info)
         \<and> calls va1 = calls va @ [Release (base alloc_info) (reserved_size alloc_info)]
         \<and> alloc_info2 = alloc_info
         \<and> calls va2 = calls va @ [Release (base alloc_info) (reserved_size alloc_info),
                                    Release (base alloc_info) (reserved_size alloc_info)]"
  using assms by (auto simp: v_alloc_free_def va_release_def)

theorem free_keeps_descriptor_witness:
  "base (arena 0x10000 48 4096 1048576) \<noteq> NULL
   \<and> v_alloc_free (v_alloc_posix (posix_ok 0x10000)) (arena 0x10000 48 4096 1048576)
       = (True, arena 0x10000 48 4096 1048576,
          (v_alloc_posix (posix_ok 0x10000))\<lparr>calls := [Release 0x10000 1048576]\<rparr>)
   \<and> v_alloc_free ((v_alloc_posix (posix_ok 0x10000))\<lparr>calls := [Release 0x10000 1048576]\<rparr>)
         (arena 0x10000 48 4096 1048576)
       = (True, arena 0x10000 48 4096 1048576,
          (v_alloc_posix (posix_ok 0x10000))
            \<lparr>calls := [Release 0x10000 1048576, Release 0x10000 1048576]\<rparr>)"
proof -
  let ?va = "v_alloc_posix (posix_ok 0x10000)"
  let ?a = "arena 0x10000 48 4096 1048576"
  have b: "base ?a \<noteq> NULL" by (simp add: arena_def NULL_def)
  have f1: "v_alloc_free ?va ?a = (True, ?a, ?va\<lparr>calls := [Release 0x10000 1048576]\<rparr>)"
    by (simp add: v_alloc_free_def va_release_def arena_def NULL_def v_alloc_posix_def
        v_alloc_posix_release_def posix_ok_def)
  have f2: "v_alloc_free (?va\<lparr>calls := [Release 0x10000 1048576]\<rparr>) ?a
            = (True, ?a, ?va\<lparr>calls := [Release 0x10000 1048576, Release 0x10000 1048576]\<rparr>)"
    by (simp add: v_alloc_free_def va_release_def arena_def NULL_def v_alloc_posix_def
        v_alloc_posix_release_def posix_ok_def)
  from free_keeps_descriptor [OF b f1 f2] b f1 f2 show ?thesis by simp
qed


section \<open>Evaluation on concrete inputs\<close>

text \<open>The defining equations, collected for evaluating the operations on concrete
  descriptors and platforms.\<close>

lemmas platform_defs =
  va_reserve_def va_commit_def va_decommit_def va_release_def with_answers_def
  v_alloc_posix_def v_alloc_posix_reserve_def v_alloc_posix_commit_def
  v_alloc_posix_decommit_def v_alloc_posix_release_def v_alloc_posix_get_page_size_def
  posix_ok_def posix_mprotect_fails_def posix_no_page_size_def commit_refused_def
  MAP_FAILED_def

lemmas arena_defs =
  v_alloc_reserve_def reserve_default_def v_alloc_committ_def v_alloc_reset_def
  v_alloc_decommit_def v_alloc_free_def v_alloc_resize_def int_of_bool_def
  ALIGN_UP_def ALIGN_DOWN_PTR_def NULL_def V_ALLOC_ALIGNMENT_def MAX_ARENA_CAPACITY_def
  AllocInfo_zero_def arena_def SIZE_MAX_def

lemmas realloc_defs =
  v_alloc_realloc_def v_alloc_hdr_from_data_def hdr_data_def offsetof_AllocHdr_data_def


section \<open>Pointer stability\<close>

lemma int_of_bool_not_minus_one: "int_of_bool b \<noteq> - 1"
  by (simp add: int_of_bool_def)

lemma reserve_default_reserved:
  "base alloc_info \<noteq> NULL \<Longrightarrow> reserve_default va alloc_info = (True, alloc_info, va)"
  by (simp add: reserve_default_def NULL_def)

lemma resize_returns_base:
  assumes "v_alloc_resize va alloc_info n = (r, alloc_info1, va1)" and "r \<noteq> NULL"
  shows "r = base alloc_info1"
  using assms
  by (auto simp: v_alloc_resize_def Let_def int_of_bool_not_minus_one
      split: if_splits prod.splits)

lemma resize_keeps_base:
  assumes "v_alloc_resize va alloc_info n = (r, alloc_info1, va1)"
    and "base alloc_info \<noteq> NULL"
  shows "base alloc_info1 = base alloc_info"
  using assms
  by (auto simp: v_alloc_resize_def v_alloc_free_def Let_def reserve_default_reserved
      split: if_splits prod.splits)

lemma hdr_data_hdr_from_data: "hdr_data (v_alloc_hdr_from_data data) = data"
  by (simp add: hdr_data_def v_alloc_hdr_from_data_def)

lemma realloc_returns_data:
  assumes "data \<noteq> NULL" and "v_alloc_realloc va mem data n = (r, mem1, va1)"
  shows "r = NULL \<or> r = data"
  using assms
  by (auto simp: v_alloc_realloc_def Let_def hdr_data_hdr_from_data
      split: if_splits prod.splits)

lemma realloc_calls_stable:
  assumes "data \<noteq> NULL" and "NULL \<notin> set (realloc_calls va mem data steps)"
  shows "\<forall>r\<in>set (realloc_calls va mem data steps). r = data"
  using assms
proof (induction steps arbitrary: va mem)
  case Nil
  then show ?case by simp
next
  case (Cons s steps)
  obtain os n where s: "s = (os, n)" by (cases s)
  obtain r mem1 va1 where
    step: "v_alloc_realloc (with_answers va os) mem data n = (r, mem1, va1)"
    by (cases "v_alloc_realloc (with_answers va os) mem data n")
  from Cons.prems(2) s step have "r \<noteq> NULL" by auto
  with realloc_returns_data [OF Cons.prems(1) step] have r: "r = data" by simp
  from Cons.prems(2) s step r
  have "NULL \<notin> set (realloc_calls va1 mem1 data steps)" by simp
  with Cons.IH [OF Cons.prems(1)]
  have "\<forall>r\<in>set (realloc_calls va1 mem1 data steps). r = data" .
  with s step r show ?case by simp
qed

text \<open>
  C1. In a sequence of \<open>v_alloc_realloc\<close> calls that starts from a data pointer that is
  not \<open>NULL\<close>, feeds each call the pointer the call before returned, and in which no
  call returns \<open>NULL\<close>, every call returns the pointer the sequence started from,
  whatever the sizes asked for and whatever the platform answers. And a
  \<open>v_alloc_resize\<close> on a reserved descriptor that does not return \<open>NULL\<close> returns the
  descriptor's \<open>base\<close>, which the call has not changed.
\<close>

theorem pointer_stability:
  "(data \<noteq> NULL \<and> NULL \<notin> set (realloc_calls va mem data steps)
      \<longrightarrow> (\<forall>r\<in>set (realloc_calls va mem data steps). r = data))
   \<and> (base alloc_info \<noteq> NULL \<and> fst (v_alloc_resize va2 alloc_info n) \<noteq> NULL
      \<longrightarrow> fst (v_alloc_resize va2 alloc_info n) = base alloc_info
          \<and> base (fst (snd (v_alloc_resize va2 alloc_info n))) = base alloc_info)"
proof (intro conjI impI)
  assume "data \<noteq> NULL \<and> NULL \<notin> set (realloc_calls va mem data steps)"
  then show "\<forall>r\<in>set (realloc_calls va mem data steps). r = data"
    using realloc_calls_stable by blast
next
  assume a: "base alloc_info \<noteq> NULL \<and> fst (v_alloc_resize va2 alloc_info n) \<noteq> NULL"
  obtain r a1 va1 where res: "v_alloc_resize va2 alloc_info n = (r, a1, va1)"
    by (cases "v_alloc_resize va2 alloc_info n")
  from a res have "r \<noteq> NULL" by simp
  from resize_returns_base [OF res this] resize_keeps_base [OF res] a res
  show "fst (v_alloc_resize va2 alloc_info n) = base alloc_info" by simp
  from resize_keeps_base [OF res] a res
  show "base (fst (snd (v_alloc_resize va2 alloc_info n))) = base alloc_info" by simp
qed

text \<open>The witness: the allocation that \<open>v_alloc_realloc(NULL, 64)\<close> makes at
  \<open>0x10000\<close> (data at \<open>0x10030\<close>) is resized to 128, 5000 and 32 bytes, the platform
  answering differently each time.\<close>

theorem pointer_stability_witness:
  "(0x10030 :: ptr) \<noteq> NULL
   \<and> NULL \<notin> set (realloc_calls
        ((v_alloc_posix (posix_ok 0x10000))\<lparr>V_Allocator.page_size := 4096,
           calls := [Reserve 0x40000000, Commit 0x10000 4096 4096]\<rparr>)
        ((\<lambda>a. AllocInfo_zero)(0x10000 := arena 0x10000 4096 4096 0x40000000)) 0x10030
        [(v_alloc_posix (posix_ok 0x10000), 128),
         (v_alloc_posix (posix_mprotect_fails 0x10000), 5000),
         (commit_refused 0, 32)])
   \<and> realloc_calls
        ((v_alloc_posix (posix_ok 0x10000))\<lparr>V_Allocator.page_size := 4096,
           calls := [Reserve 0x40000000, Commit 0x10000 4096 4096]\<rparr>)
        ((\<lambda>a. AllocInfo_zero)(0x10000 := arena 0x10000 4096 4096 0x40000000)) 0x10030
        [(v_alloc_posix (posix_ok 0x10000), 128),
         (v_alloc_posix (posix_mprotect_fails 0x10000), 5000),
         (commit_refused 0, 32)]
       = [0x10030, 0x10030, 0x10030]
   \<and> base (arena 0x10000 4096 4096 0x40000000) \<noteq> NULL
   \<and> fst (v_alloc_resize (v_alloc_posix (posix_ok 0x10000))
            (arena 0x10000 4096 4096 0x40000000) 5048) = 0x10000
   \<and> base (fst (snd (v_alloc_resize (v_alloc_posix (posix_ok 0x10000))
            (arena 0x10000 4096 4096 0x40000000) 5048))) = 0x10000
   \<and> end' (fst (snd (v_alloc_resize (v_alloc_posix (posix_ok 0x10000))
            (arena 0x10000 4096 4096 0x40000000) 5048))) = 0x12000"
  using pointer_stability
    [of "0x10030"
        "(v_alloc_posix (posix_ok 0x10000))\<lparr>V_Allocator.page_size := 4096,
           calls := [Reserve 0x40000000, Commit 0x10000 4096 4096]\<rparr>"
        "(\<lambda>a. AllocInfo_zero)(0x10000 := arena 0x10000 4096 4096 0x40000000)"
        "[(v_alloc_posix (posix_ok 0x10000), 128),
          (v_alloc_posix (posix_mprotect_fails 0x10000), 5000),
          (commit_refused 0, 32)]"
        "arena 0x10000 4096 4096 0x40000000"
        "v_alloc_posix (posix_ok 0x10000)" 5048]
  by (simp add: platform_defs arena_defs realloc_defs)


section \<open>Reset and reuse\<close>

text \<open>
  C6. For every reserved descriptor, \<open>v_alloc_reset\<close> sets the cursor to \<open>base\<close> and
  changes nothing else, and the next \<open>v_alloc_committ\<close> of any size \<open>S\<close> whose
  16-aligned value fits in the committed region (\<open>ALIGN_UP(S, 16) \<le> end - base\<close>)
  returns \<open>base\<close>, which is not \<open>NULL\<close>, advances the cursor by the aligned size and
  makes no platform call: the table with its log is returned as it was, and \<open>end\<close> is
  unchanged. A size is a size that can be allocated: the size 0 is the caller error that
  \<open>v_alloc_committ\<close> rejects on every descriptor.
\<close>

theorem reset_reuse:
  assumes "base alloc_info \<noteq> NULL"
    and "S \<noteq> 0"
    and "ALIGN_UP S V_ALLOC_ALIGNMENT \<le> end' alloc_info - base alloc_info"
  shows "v_alloc_reset (Some alloc_info) = Some (alloc_info\<lparr>ptr := base alloc_info\<rparr>)
         \<and> v_alloc_committ va (alloc_info\<lparr>ptr := base alloc_info\<rparr>) S
             = (base alloc_info,
                alloc_info\<lparr>ptr := base alloc_info + ALIGN_UP S V_ALLOC_ALIGNMENT\<rparr>,
                va)
         \<and> fst (v_alloc_committ va (alloc_info\<lparr>ptr := base alloc_info\<rparr>) S) \<noteq> NULL"
  using assms by (simp add: v_alloc_reset_def v_alloc_committ_def Let_def not_less [symmetric])

text \<open>
  The witness is the scenario: reserve 1 MiB, allocate 33 bytes (48 after alignment),
  reset, allocate 40 bytes. The second allocation is at the arena's base, and the log
  holds the one commit of the first allocation.
\<close>

theorem reset_reuse_witness:
  "v_alloc_reserve (v_alloc_posix (posix_ok 0x10000)) AllocInfo_zero 0x100000
     = (True, arena 0x10000 0 0 0x100000,
        (v_alloc_posix (posix_ok 0x10000))
          \<lparr>V_Allocator.page_size := 4096, calls := [Reserve 0x100000]\<rparr>)
   \<and> v_alloc_committ
        ((v_alloc_posix (posix_ok 0x10000))
           \<lparr>V_Allocator.page_size := 4096, calls := [Reserve 0x100000]\<rparr>)
        (arena 0x10000 0 0 0x100000) 33
     = (0x10000, arena 0x10000 48 4096 0x100000,
        (v_alloc_posix (posix_ok 0x10000))
          \<lparr>V_Allocator.page_size := 4096,
            calls := [Reserve 0x100000, Commit 0x10000 4096 4096]\<rparr>)
   \<and> base (arena 0x10000 48 4096 0x100000) \<noteq> NULL
   \<and> (40 :: size_t) \<noteq> 0
   \<and> ALIGN_UP 40 V_ALLOC_ALIGNMENT
       \<le> end' (arena 0x10000 48 4096 0x100000) - base (arena 0x10000 48 4096 0x100000)
   \<and> v_alloc_reset (Some (arena 0x10000 48 4096 0x100000))
       = Some (arena 0x10000 0 4096 0x100000)
   \<and> v_alloc_committ
        ((v_alloc_posix (posix_ok 0x10000))
           \<lparr>V_Allocator.page_size := 4096,
             calls := [Reserve 0x100000, Commit 0x10000 4096 4096]\<rparr>)
        (arena 0x10000 0 4096 0x100000) 40
     = (0x10000, arena 0x10000 48 4096 0x100000,
        (v_alloc_posix (posix_ok 0x10000))
          \<lparr>V_Allocator.page_size := 4096,
            calls := [Reserve 0x100000, Commit 0x10000 4096 4096]\<rparr>)"
proof -
  let ?a = "arena 0x10000 48 4096 0x100000"
  let ?va = "(v_alloc_posix (posix_ok 0x10000))
          \<lparr>V_Allocator.page_size := 4096,
            calls := [Reserve 0x100000, Commit 0x10000 4096 4096]\<rparr>"
  have h1: "base ?a \<noteq> NULL" by (simp add: arena_defs)
  have h2: "(40 :: size_t) \<noteq> 0" by simp
  have h3: "ALIGN_UP 40 V_ALLOC_ALIGNMENT \<le> end' ?a - base ?a" by (simp add: arena_defs)
  have r: "v_alloc_reserve (v_alloc_posix (posix_ok 0x10000)) AllocInfo_zero 0x100000
     = (True, arena 0x10000 0 0 0x100000,
        (v_alloc_posix (posix_ok 0x10000))
          \<lparr>V_Allocator.page_size := 4096, calls := [Reserve 0x100000]\<rparr>)"
    by (simp add: platform_defs arena_defs word_sle_eq)
  have c: "v_alloc_committ
        ((v_alloc_posix (posix_ok 0x10000))
           \<lparr>V_Allocator.page_size := 4096, calls := [Reserve 0x100000]\<rparr>)
        (arena 0x10000 0 0 0x100000) 33
     = (0x10000, ?a, ?va)"
    by (simp add: platform_defs arena_defs)
  from reset_reuse [OF h1 h2 h3, of ?va] h1 h2 h3 r c show ?thesis
    by (simp add: arena_def ALIGN_UP_def V_ALLOC_ALIGNMENT_def)
qed


section \<open>The capacity boundary\<close>

text \<open>
  \<open>v_alloc_resize\<close> holds the boundary for the sizes whose test is not defeated by the
  sign: on a reserved descriptor, a request that has to grow and whose page-rounded size
  is below \<open>2 ^ 63\<close> and exceeds \<open>reserved_size\<close> returns \<open>NULL\<close>, the descriptor and
  the table as they were.
\<close>

lemma resize_capacity_boundary:
  assumes "base alloc_info \<noteq> NULL"
    and "end' alloc_info - base alloc_info < size_in_bytes"
    and "unat (ALIGN_UP size_in_bytes (page_size alloc_info)) < 2 ^ 63"
    and "reserved_size alloc_info < ALIGN_UP size_in_bytes (page_size alloc_info)"
  shows "v_alloc_resize va alloc_info size_in_bytes = (NULL, alloc_info, va)"
proof -
  let ?adj = "ALIGN_UP size_in_bytes (page_size alloc_info)"
  have n0: "size_in_bytes \<noteq> 0" using assms(2) by auto
  have "unat (reserved_size alloc_info) < unat ?adj"
    using assms(4) by (simp add: word_less_nat_alt)
  with assms(3) have "reserved_size alloc_info <s ?adj" by (rule signed_test_failed)
  with n0 assms(1,2) show ?thesis
    by (simp add: v_alloc_resize_def reserve_default_def NULL_def Let_def)
qed

text \<open>
  C2. \<open>v_alloc_committ\<close> does not hold it. It tests \<open>ptr + adjusted\<close> against
  \<open>base + reserved_size\<close> and then commits \<open>adjusted\<close> bytes beyond \<open>end\<close>. Two runs
  on a POSIX platform with 4096-byte pages that maps at \<open>0x10000\<close>:
  \<^item> reserve 8192 bytes, allocate 16, reset, allocate 4112: the last call returns
    \<open>0x10000\<close>, asks the platform to commit 12288 bytes and leaves \<open>end\<close> at
    \<open>base + 12288\<close>;
  \<^item> reserve 16384 bytes and allocate 16, 4112 and 8176 bytes with no reset: the third
    call returns \<open>0x11020\<close> and leaves \<open>end\<close> at \<open>base + 20480\<close>.
\<close>

theorem committ_exceeds_reservation:
  "v_alloc_reserve (v_alloc_posix (posix_ok 0x10000)) AllocInfo_zero 8192
     = (True, arena 0x10000 0 0 8192,
        (v_alloc_posix (posix_ok 0x10000))
          \<lparr>V_Allocator.page_size := 4096, calls := [Reserve 8192]\<rparr>)
   \<and> v_alloc_committ
        ((v_alloc_posix (posix_ok 0x10000))
           \<lparr>V_Allocator.page_size := 4096, calls := [Reserve 8192]\<rparr>)
        (arena 0x10000 0 0 8192) 16
     = (0x10000, arena 0x10000 16 4096 8192,
        (v_alloc_posix (posix_ok 0x10000))
          \<lparr>V_Allocator.page_size := 4096,
            calls := [Reserve 8192, Commit 0x10000 4096 4096]\<rparr>)
   \<and> v_alloc_reset (Some (arena 0x10000 16 4096 8192)) = Some (arena 0x10000 0 4096 8192)
   \<and> descriptor_inv (arena 0x10000 0 4096 8192)
   \<and> v_alloc_committ
        ((v_alloc_posix (posix_ok 0x10000))
           \<lparr>V_Allocator.page_size := 4096,
             calls := [Reserve 8192, Commit 0x10000 4096 4096]\<rparr>)
        (arena 0x10000 0 4096 8192) 4112
     = (0x10000, arena 0x10000 4112 12288 8192,
        (v_alloc_posix (posix_ok 0x10000))
          \<lparr>V_Allocator.page_size := 4096,
            calls := [Reserve 8192, Commit 0x10000 4096 4096, Commit 0x10000 12288 8192]\<rparr>)
   \<and> \<not> within_reservation (arena 0x10000 4112 12288 8192)
   \<and> committ_calls
        ((v_alloc_posix (posix_ok 0x10000))
           \<lparr>V_Allocator.page_size := 4096, calls := [Reserve 16384]\<rparr>)
        (arena 0x10000 0 0 16384)
        [(v_alloc_posix (posix_ok 0x10000), 16),
         (v_alloc_posix (posix_ok 0x10000), 4112),
         (v_alloc_posix (posix_ok 0x10000), 8176)]
     = ([0x10000, 0x10010, 0x11020], arena 0x10000 12304 20480 16384)
   \<and> \<not> within_reservation (arena 0x10000 12304 20480 16384)"
  by (simp add: platform_defs arena_defs descriptor_inv_def descriptor_ordered_def
      within_reservation_def word_sle_eq)


section \<open>A commit that fails\<close>

text \<open>The \<open>int\<close> that receives the \<open>bool\<close> of \<open>v_alloc.commit\<close> is 0 or 1: the test
  \<open>result == -1\<close> of \<open>v_alloc_committ\<close> and \<open>v_alloc_resize\<close> never holds, and what the
  two functions return does not depend on what \<open>commit\<close> answers.\<close>

lemma va_commit_ignored:
  "snd (va_commit (va\<lparr>commit := c\<rparr>) a t n) = (snd (va_commit va a t n))\<lparr>commit := c\<rparr>"
  by (simp add: va_commit_def)

lemma va_reserve_ignores_commit:
  "va_reserve (va\<lparr>commit := c\<rparr>) n
     = (fst (va_reserve va n), (snd (va_reserve va n))\<lparr>commit := c\<rparr>)"
  by (simp add: va_reserve_def split: prod.splits)

lemma reserve_ignores_commit:
  "v_alloc_reserve (va\<lparr>commit := c\<rparr>) alloc_info n
     = (fst (v_alloc_reserve va alloc_info n),
        fst (snd (v_alloc_reserve va alloc_info n)),
        (snd (snd (v_alloc_reserve va alloc_info n)))\<lparr>commit := c\<rparr>)"
  by (simp add: v_alloc_reserve_def va_reserve_ignores_commit Let_def split: prod.splits)

lemma reserve_default_ignores_commit:
  "reserve_default (va\<lparr>commit := c\<rparr>) alloc_info
     = (fst (reserve_default va alloc_info),
        fst (snd (reserve_default va alloc_info)),
        (snd (snd (reserve_default va alloc_info)))\<lparr>commit := c\<rparr>)"
  by (simp add: reserve_default_def reserve_ignores_commit)

lemma committ_ignores_commit:
  "fst (v_alloc_committ (va\<lparr>commit := c\<rparr>) alloc_info n) = fst (v_alloc_committ va alloc_info n)
   \<and> fst (snd (v_alloc_committ (va\<lparr>commit := c\<rparr>) alloc_info n))
       = fst (snd (v_alloc_committ va alloc_info n))"
  by (simp add: v_alloc_committ_def reserve_default_ignores_commit va_commit_def
      int_of_bool_not_minus_one Let_def split: prod.splits)

lemma resize_ignores_commit:
  "fst (v_alloc_resize (va\<lparr>commit := c\<rparr>) alloc_info n) = fst (v_alloc_resize va alloc_info n)
   \<and> fst (snd (v_alloc_resize (va\<lparr>commit := c\<rparr>) alloc_info n))
       = fst (snd (v_alloc_resize va alloc_info n))"
  by (simp add: v_alloc_resize_def v_alloc_free_def va_release_def
      reserve_default_ignores_commit va_commit_def
      int_of_bool_not_minus_one Let_def split: prod.splits)

text \<open>
  C3. On a reserved 1 MiB arena at \<open>0x10000\<close> with nothing committed, an allocation of
  16 bytes has to commit a page.
  \<^item> On the POSIX platform whose \<open>mprotect\<close> answers -1, \<open>v_alloc_posix_commit\<close>
    answers true, and \<open>v_alloc_committ\<close> returns \<open>0x10000\<close>, not \<open>NULL\<close>, with the
    cursor advanced to \<open>base + 16\<close> and \<open>end\<close> to \<open>base + 4096\<close>.
  \<^item> On a table whose \<open>commit\<close> answers false the result is the same.
  \<^item> \<open>v_alloc_resize\<close> to 100 bytes on that table returns \<open>0x10000\<close> with
    \<open>ptr = end = base + 4096\<close>.
\<close>

theorem commit_failure_not_reported:
  "mprotect (posix_mprotect_fails 0x10000) 0x10000 4096 PROT_READ_WRITE = - 1
   \<and> v_alloc_posix_commit (posix_mprotect_fails 0x10000) 0x10000 4096 4096 = True
   \<and> v_alloc_committ
        ((v_alloc_posix (posix_mprotect_fails 0x10000))\<lparr>V_Allocator.page_size := 4096\<rparr>)
        (arena 0x10000 0 0 0x100000) 16
     = (0x10000, arena 0x10000 16 4096 0x100000,
        (v_alloc_posix (posix_mprotect_fails 0x10000))
          \<lparr>V_Allocator.page_size := 4096, calls := [Commit 0x10000 4096 4096]\<rparr>)
   \<and> commit (commit_refused 0x10000) 0x10000 4096 4096 = False
   \<and> v_alloc_committ (commit_refused 0x10000) (arena 0x10000 0 0 0x100000) 16
     = (0x10000, arena 0x10000 16 4096 0x100000,
        (commit_refused 0x10000)\<lparr>calls := [Commit 0x10000 4096 4096]\<rparr>)
   \<and> v_alloc_resize (commit_refused 0x10000) (arena 0x10000 0 0 0x100000) 100
     = (0x10000, arena 0x10000 4096 4096 0x100000,
        (commit_refused 0x10000)\<lparr>calls := [Commit 0x10000 4096 4096]\<rparr>)
   \<and> (0x10000 :: ptr) \<noteq> NULL"
  by (simp add: platform_defs arena_defs)


section \<open>Decommit\<close>

lemma decommit_cases:
  assumes "extra_size \<noteq> 0"
  shows "v_alloc_decommit va (Some a) extra_size =
     (if end' a - base a < ALIGN_UP extra_size (page_size a) then (False, Some a, va)
      else
        (decommit va (ALIGN_DOWN_PTR (end' a - ALIGN_UP extra_size (page_size a)) (page_size a))
           (ALIGN_UP extra_size (page_size a)),
         Some (if decommit va
                    (ALIGN_DOWN_PTR (end' a - ALIGN_UP extra_size (page_size a)) (page_size a))
                    (ALIGN_UP extra_size (page_size a))
               then a\<lparr>end' :=
                      ALIGN_DOWN_PTR (end' a - ALIGN_UP extra_size (page_size a)) (page_size a)\<rparr>
               else a),
         va\<lparr>calls := calls va @
             [Decommit
                (ALIGN_DOWN_PTR (end' a - ALIGN_UP extra_size (page_size a)) (page_size a))
                (ALIGN_UP extra_size (page_size a))]\<rparr>))"
  using assms by (simp add: v_alloc_decommit_def va_decommit_def Let_def)

text \<open>
  C9, as stated, fails. On an arena of 1 MiB at \<open>0x10000\<close> with three pages committed:
  \<^item> \<open>v_alloc_decommit\<close> of \<open>SIZE_MAX\<close> bytes, which exceeds the committed size, does
    not return false: rounding \<open>SIZE_MAX\<close> up to the page size wraps around to 0, the
    call asks the platform to decommit 0 bytes at \<open>end\<close> and returns its answer, true.
  And on an arena whose page size is 0, reserved while \<open>sysconf\<close> fails:
  \<^item> \<open>v_alloc_decommit\<close> of one byte rounds to 0 bytes and aligns \<open>end\<close> down to the
    address 0; it succeeds and leaves \<open>end\<close> at \<open>NULL\<close>.
\<close>

theorem decommit_counterexample:
  "end' (arena 0x10000 48 12288 0x100000) - base (arena 0x10000 48 12288 0x100000) < SIZE_MAX
   \<and> ALIGN_UP SIZE_MAX (page_size (arena 0x10000 48 12288 0x100000)) = 0
   \<and> v_alloc_decommit (v_alloc_posix (posix_ok 0x10000))
        (Some (arena 0x10000 48 12288 0x100000)) SIZE_MAX
      = (True, Some (arena 0x10000 48 12288 0x100000),
         (v_alloc_posix (posix_ok 0x10000))\<lparr>calls := [Decommit 0x13000 0]\<rparr>)
   \<and> v_alloc_reserve (v_alloc_posix (posix_no_page_size 0x10000)) AllocInfo_zero 0x100000
      = (True, (arena 0x10000 0 0 0x100000)\<lparr>page_size := 0\<rparr>,
         (v_alloc_posix (posix_no_page_size 0x10000))\<lparr>calls := [Reserve 0x100000]\<rparr>)
   \<and> v_alloc_decommit (v_alloc_posix (posix_no_page_size 0x10000))
        (Some ((arena 0x10000 0 0 0x100000)\<lparr>page_size := 0\<rparr>)) 1
      = (True, Some ((arena 0x10000 0 0 0x100000)\<lparr>page_size := 0, end' := NULL\<rparr>),
         (v_alloc_posix (posix_no_page_size 0x10000))\<lparr>calls := [Decommit 0 0]\<rparr>)"
  by (simp add: platform_defs arena_defs word_sle_eq)

text \<open>
  C9, amended. On every descriptor whose page size is a power of two,
  \<open>v_alloc_decommit(descriptor, extra_size)\<close> with \<open>extra_size > 0\<close> works with the
  amount \<open>ALIGN_UP(extra_size, page_size)\<close> and the target address
  \<open>ALIGN_DOWN_PTR(end - amount, page_size)\<close>:
  \<^item> when the amount exceeds the committed size \<open>end - base\<close> it returns false, with the
    descriptor as it was and no platform call;
  \<^item> otherwise it asks the platform to decommit the amount at the target and returns
    the platform's answer; when that is true \<open>end\<close> is the target and no other field
    has changed, when it is false the descriptor is as it was;
  \<^item> the amount and the target are multiples of the page size; the target is at most
    \<open>end\<close> minus the amount, and equal to it when \<open>end\<close> is page-aligned;
  \<^item> for \<open>extra_size\<close> up to \<open>2 ^ 64\<close> minus the page size, the amount is
    \<open>extra_size\<close> rounded up: at least \<open>extra_size\<close> and less than a page more, so the
    call returns false when \<open>extra_size\<close> exceeds the committed size;
  \<^item> for larger \<open>extra_size\<close> the rounding wraps around and the amount is 0.
\<close>

theorem decommit_behaviour:
  assumes "page_size a = 2 ^ k" and "k < 64" and "extra_size \<noteq> 0"
  shows "(let amount = ALIGN_UP extra_size (page_size a);
              target = ALIGN_DOWN_PTR (end' a - amount) (page_size a)
          in v_alloc_decommit va (Some a) extra_size
               = (if end' a - base a < amount then (False, Some a, va)
                  else (decommit va target amount,
                        Some (if decommit va target amount then a\<lparr>end' := target\<rparr> else a),
                        va\<lparr>calls := calls va @ [Decommit target amount]\<rparr>))
             \<and> 2 ^ k dvd unat amount
             \<and> 2 ^ k dvd unat target
             \<and> target \<le> end' a - amount
             \<and> (2 ^ k dvd unat (end' a) \<longrightarrow> target = end' a - amount)
             \<and> (unat extra_size + 2 ^ k \<le> 2 ^ 64 \<longrightarrow>
                  unat extra_size \<le> unat amount \<and> unat amount < unat extra_size + 2 ^ k
                  \<and> (end' a - base a < extra_size \<longrightarrow>
                       v_alloc_decommit va (Some a) extra_size = (False, Some a, va)))
             \<and> (2 ^ 64 < unat extra_size + 2 ^ k \<longrightarrow> amount = 0))"
proof -
  let ?x = "ALIGN_UP extra_size (page_size a)"
  let ?t = "ALIGN_DOWN_PTR (end' a - ?x) (page_size a)"
  note pg = assms(1) and k = assms(2)
  note eq = decommit_cases [OF assms(3), of va a]
  have xd: "2 ^ k dvd unat ?x" using ALIGN_UP_dvd_always [OF k] by (simp add: pg)
  have td: "2 ^ k dvd unat ?t" using ALIGN_DOWN_PTR_dvd [OF k] by (simp add: pg)
  have tle: "?t \<le> end' a - ?x"
    using ALIGN_DOWN_PTR_le [OF k] by (simp add: pg word_le_nat_alt)
  have teq: "?t = end' a - ?x" if "2 ^ k dvd unat (end' a)"
  proof -
    from k have "k \<le> 64" by simp
    from dvd_unat_diff [OF this that xd] have "2 ^ k dvd unat (end' a - ?x)" .
    from ALIGN_DOWN_PTR_id [OF k this] show ?thesis by (simp add: pg)
  qed
  have small: "unat extra_size \<le> unat ?x \<and> unat ?x < unat extra_size + 2 ^ k
               \<and> (end' a - base a < extra_size \<longrightarrow>
                    v_alloc_decommit va (Some a) extra_size = (False, Some a, va))"
    if nw: "unat extra_size + 2 ^ k \<le> 2 ^ 64"
  proof -
    have ge: "unat extra_size \<le> unat ?x" using ALIGN_UP_ge [OF k nw] by (simp add: pg)
    have lt: "unat ?x < unat extra_size + 2 ^ k" using ALIGN_UP_lt [OF k nw] by (simp add: pg)
    have "v_alloc_decommit va (Some a) extra_size = (False, Some a, va)"
      if "end' a - base a < extra_size"
    proof -
      from that ge have "end' a - base a < ?x" by (simp add: word_less_nat_alt)
      then show ?thesis by (simp add: eq)
    qed
    with ge lt show ?thesis by blast
  qed
  have wraps: "?x = 0" if "2 ^ 64 < unat extra_size + 2 ^ k"
    using ALIGN_UP_wraps [OF k that] by (simp add: pg)
  from eq xd td tle teq small wraps show ?thesis
    unfolding Let_def by blast
qed

text \<open>The witness: the arena of 1 MiB at \<open>0x10000\<close> with three pages committed gives
  back 5000 bytes, rounded up to two pages, and keeps one page; asked for a byte more
  than is committed it returns false.\<close>

theorem decommit_behaviour_witness:
  "page_size (arena 0x10000 48 12288 0x100000) = 2 ^ 12 \<and> (12 :: nat) < 64
   \<and> (5000 :: size_t) \<noteq> 0
   \<and> ALIGN_UP 5000 (page_size (arena 0x10000 48 12288 0x100000)) = 8192
   \<and> ALIGN_DOWN_PTR (end' (arena 0x10000 48 12288 0x100000) - 8192)
        (page_size (arena 0x10000 48 12288 0x100000)) = 0x11000
   \<and> v_alloc_decommit (v_alloc_posix (posix_ok 0x10000))
        (Some (arena 0x10000 48 12288 0x100000)) 5000
      = (True, Some (arena 0x10000 48 4096 0x100000),
         (v_alloc_posix (posix_ok 0x10000))\<lparr>calls := [Decommit 0x11000 8192]\<rparr>)
   \<and> (2 :: nat) ^ 12 dvd unat (8192 :: size_t)
   \<and> (2 :: nat) ^ 12 dvd unat (0x11000 :: ptr)
   \<and> (12289 :: size_t) \<noteq> 0
   \<and> unat (12289 :: size_t) + 2 ^ 12 \<le> (2 :: nat) ^ 64
   \<and> end' (arena 0x10000 48 12288 0x100000) - base (arena 0x10000 48 12288 0x100000) < 12289
   \<and> v_alloc_decommit (v_alloc_posix (posix_ok 0x10000))
        (Some (arena 0x10000 48 12288 0x100000)) 12289
      = (False, Some (arena 0x10000 48 12288 0x100000), v_alloc_posix (posix_ok 0x10000))"
proof -
  let ?a = "arena 0x10000 48 12288 0x100000"
  let ?va = "v_alloc_posix (posix_ok 0x10000)"
  have h1: "page_size ?a = 2 ^ 12" by (simp add: arena_def)
  have h2: "(12 :: nat) < 64" by simp
  have h3: "(5000 :: size_t) \<noteq> 0" by simp
  have h4: "(12289 :: size_t) \<noteq> 0" by simp
  have x: "ALIGN_UP 5000 (page_size ?a) = 8192" by (simp add: arena_defs)
  have t: "ALIGN_DOWN_PTR (end' ?a - 8192) (page_size ?a) = 0x11000" by (simp add: arena_defs)
  have d: "decommit ?va 0x11000 8192 = True" by (simp add: platform_defs)
  have c: "calls ?va = []" by (simp add: platform_defs)
  have n: "unat (12289 :: size_t) + 2 ^ 12 \<le> (2 :: nat) ^ 64" by simp
  have e: "end' ?a - base ?a < 12289" by (simp add: arena_def)
  have e5: "\<not> end' ?a - base ?a < 8192" by (simp add: arena_def)
  from decommit_behaviour [OF h1 h2 h3, of ?va] x t d c e5
  have r1: "v_alloc_decommit ?va (Some ?a) 5000
      = (True, Some (?a\<lparr>end' := 0x11000\<rparr>), ?va\<lparr>calls := [Decommit 0x11000 8192]\<rparr>)
      \<and> (2 :: nat) ^ 12 dvd unat (8192 :: size_t) \<and> (2 :: nat) ^ 12 dvd unat (0x11000 :: ptr)"
    by (simp add: Let_def)
  from decommit_behaviour [OF h1 h2 h4, of ?va] n e
  have r2: "v_alloc_decommit ?va (Some ?a) 12289 = (False, Some ?a, ?va)"
    by (simp add: Let_def arena_defs)
  from r1 r2 h1 h2 h3 h4 x t n e show ?thesis by (simp add: arena_def)
qed


section \<open>The branches of the operations\<close>

text \<open>Each operation, branch by branch, as equations that the proofs below rewrite
  with.\<close>

lemma reserve_cases:
  assumes "v_alloc_reserve va a n = (ok, a1, va1)"
  shows "(ok \<and> base a1 \<noteq> NULL \<and> ptr a1 = base a1 \<and> end' a1 = base a1
            \<and> reserved_size a1 = n \<and> page_size a1 = V_Allocator.page_size va1)
         \<or> (\<not> ok \<and> a1 = a\<lparr>base := NULL\<rparr>)"
  using assms
  by (auto simp: v_alloc_reserve_def Let_def split: prod.splits if_splits)

lemma reserve_default_cases:
  assumes "reserve_default va a = (ok, a1, va1)"
  shows "(base a \<noteq> NULL \<and> ok \<and> a1 = a \<and> va1 = va)
         \<or> (base a = NULL \<and> \<not> ok \<and> a1 = a)
         \<or> (base a = NULL \<and> ok \<and> base a1 \<noteq> NULL \<and> ptr a1 = base a1 \<and> end' a1 = base a1
              \<and> reserved_size a1 = MAX_ARENA_CAPACITY
              \<and> page_size a1 = V_Allocator.page_size va1)"
proof (cases "base a = NULL")
  case True
  with assms have r: "v_alloc_reserve va a MAX_ARENA_CAPACITY = (ok, a1, va1)"
    by (simp add: reserve_default_def NULL_def)
  from True have "a\<lparr>base := NULL\<rparr> = a" by simp
  with reserve_cases [OF r] True show ?thesis by auto
next
  case False
  with assms show ?thesis by (auto simp: reserve_default_def NULL_def)
qed

lemma committ_fits:
  assumes "n \<noteq> 0" and "\<not> end' a - ptr a < ALIGN_UP n V_ALLOC_ALIGNMENT"
  shows "v_alloc_committ va a n = (ptr a, a\<lparr>ptr := ptr a + ALIGN_UP n V_ALLOC_ALIGNMENT\<rparr>, va)"
  using assms by (simp add: v_alloc_committ_def Let_def)

lemma committ_reserve_fails:
  assumes "n \<noteq> 0" and "end' a - ptr a < ALIGN_UP n V_ALLOC_ALIGNMENT"
    and "reserve_default va a = (False, a1, va1)"
  shows "v_alloc_committ va a n = (NULL, a1, va1)"
  using assms by (simp add: v_alloc_committ_def Let_def)

lemma committ_grows:
  assumes "n \<noteq> 0" and "end' a - ptr a < ALIGN_UP n V_ALLOC_ALIGNMENT"
    and "reserve_default va a = (True, a1, va1)"
  shows "v_alloc_committ va a n =
     (if base a1 + reserved_size a1
           < ptr a1 + ALIGN_UP (ALIGN_UP n V_ALLOC_ALIGNMENT) (page_size a1)
      then (NULL, a1, va1)
      else (ptr a1,
            a1\<lparr>end' := end' a1 + ALIGN_UP (ALIGN_UP n V_ALLOC_ALIGNMENT) (page_size a1),
                ptr := ptr a1 + ALIGN_UP n V_ALLOC_ALIGNMENT\<rparr>,
            va1\<lparr>calls := calls va1 @
              [Commit (base a1)
                 (end' a1 - base a1 + ALIGN_UP (ALIGN_UP n V_ALLOC_ALIGNMENT) (page_size a1))
                 (ALIGN_UP (ALIGN_UP n V_ALLOC_ALIGNMENT) (page_size a1))]\<rparr>))"
  using assms
  by (simp add: v_alloc_committ_def Let_def va_commit_def int_of_bool_not_minus_one)






section \<open>The descriptor invariant, operation by operation\<close>

lemma unat_add_nowrap:
  fixes x y :: "64 word"
  assumes "unat x + unat y < 2 ^ 64"
  shows "unat (x + y) = unat x + unat y"
  using assms by (simp add: unat_add_lem [THEN iffD1])

lemma unat_lt64: "unat (x :: 64 word) < 2 ^ 64"
  using unsigned_less [of x, where ?'a = nat] by simp

lemma unat_add_le:
  fixes x y :: "64 word"
  shows "unat (x + y) \<le> unat x + unat y"
  by (simp add: unat_word_ariths)




text \<open>The two roundings of \<open>v_alloc_committ\<close>, as numbers.\<close>

lemma committ_roundings:
  assumes k: "k < 64" and nw: "unat n + 16 + 2 ^ k \<le> 2 ^ 64"
  shows "unat n \<le> unat (ALIGN_UP n V_ALLOC_ALIGNMENT)"
    and "unat (ALIGN_UP n V_ALLOC_ALIGNMENT) < unat n + 16"
    and "16 dvd unat (ALIGN_UP n V_ALLOC_ALIGNMENT)"
    and "unat (ALIGN_UP n V_ALLOC_ALIGNMENT)
         \<le> unat (ALIGN_UP (ALIGN_UP n V_ALLOC_ALIGNMENT) (2 ^ k))"
    and "unat (ALIGN_UP (ALIGN_UP n V_ALLOC_ALIGNMENT) (2 ^ k)) < unat n + 16 + 2 ^ k"
    and "2 ^ k dvd unat (ALIGN_UP (ALIGN_UP n V_ALLOC_ALIGNMENT) (2 ^ k))"
proof -
  let ?al = "ALIGN_UP n V_ALLOC_ALIGNMENT"
  have n16: "unat n + 16 \<le> 2 ^ 64" using nw by simp
  show ge: "unat n \<le> unat ?al" by (rule align16_ge [OF n16])
  show lt: "unat ?al < unat n + 16" by (rule align16_lt [OF n16])
  show "16 dvd unat ?al" by (rule align16_dvd [OF n16])
  from lt nw have a: "unat ?al + 2 ^ k \<le> 2 ^ 64" by simp
  show "unat ?al \<le> unat (ALIGN_UP ?al (2 ^ k))" by (rule ALIGN_UP_ge [OF k a])
  from ALIGN_UP_lt [OF k a] lt show "unat (ALIGN_UP ?al (2 ^ k)) < unat n + 16 + 2 ^ k"
    by simp
  show "2 ^ k dvd unat (ALIGN_UP ?al (2 ^ k))" by (rule ALIGN_UP_dvd [OF k a])
qed

text \<open>The growing branch of \<open>v_alloc_committ\<close> on a descriptor with
  \<open>base \<le> ptr \<le> end\<close> and \<open>end\<close> below a bound \<open>B\<close> that leaves room for the
  request: the test that lets the call through bounds \<open>ptr + adjusted\<close>, the new \<open>end\<close>
  is \<open>end + adjusted\<close>, and nothing wraps around.\<close>

lemma committ_grow_step:
  assumes bp': "base a \<le> ptr a" and pe': "ptr a \<le> end' a"
    and pg: "page_size a = 2 ^ k" and k: "k < 64"
    and er: "unat (end' a) \<le> B"
    and nw: "B + unat n + 16 + 2 ^ k \<le> 2 ^ 64"
    and pass: "\<not> base a + reserved_size a
                 < ptr a + ALIGN_UP (ALIGN_UP n V_ALLOC_ALIGNMENT) (page_size a)"
  shows "unat (end' a + ALIGN_UP (ALIGN_UP n V_ALLOC_ALIGNMENT) (page_size a))
         = unat (end' a) + unat (ALIGN_UP (ALIGN_UP n V_ALLOC_ALIGNMENT) (page_size a))"
    and "unat (ptr a) + unat (ALIGN_UP (ALIGN_UP n V_ALLOC_ALIGNMENT) (page_size a))
         \<le> unat (base a) + unat (reserved_size a)"
    and "unat (ptr a + ALIGN_UP n V_ALLOC_ALIGNMENT)
         = unat (ptr a) + unat (ALIGN_UP n V_ALLOC_ALIGNMENT)"
    and "unat (ALIGN_UP n V_ALLOC_ALIGNMENT)
         \<le> unat (ALIGN_UP (ALIGN_UP n V_ALLOC_ALIGNMENT) (page_size a))"
proof -
  let ?al = "ALIGN_UP n V_ALLOC_ALIGNMENT"
  let ?adj = "ALIGN_UP ?al (page_size a)"
  have nw': "unat n + 16 + 2 ^ k \<le> 2 ^ 64" using nw by simp
  note r = committ_roundings [OF k nw', folded pg]
  from pe' have pe: "unat (ptr a) \<le> unat (end' a)" by (simp add: word_le_nat_alt)
  have e: "unat (end' a) + unat ?adj < 2 ^ 64" using er r(5) nw by linarith
  then show ue: "unat (end' a + ?adj) = unat (end' a) + unat ?adj"
    by (rule unat_add_nowrap)
  from e pe have "unat (ptr a) + unat ?adj < 2 ^ 64" by linarith
  then have up: "unat (ptr a + ?adj) = unat (ptr a) + unat ?adj" by (rule unat_add_nowrap)
  from pass have "unat (ptr a + ?adj) \<le> unat (base a + reserved_size a)"
    by (simp add: word_less_nat_alt)
  with up unat_add_le [of "base a" "reserved_size a"]
  show "unat (ptr a) + unat ?adj \<le> unat (base a) + unat (reserved_size a)" by linarith
  from e pe r(4) have "unat (ptr a) + unat ?al < 2 ^ 64" by linarith
  then show "unat (ptr a + ?al) = unat (ptr a) + unat ?al" by (rule unat_add_nowrap)
  show "unat ?al \<le> unat ?adj" by (rule r(4))
qed








section \<open>Preservation of the descriptor invariant\<close>





section \<open>Bump allocation\<close>

text \<open>On a reserved descriptor \<open>v_alloc_committ\<close> writes the cursor and \<open>end\<close> only.\<close>

lemma committ_frame:
  assumes "base a \<noteq> NULL" and "v_alloc_committ va a n = (p, a1, va1)"
  shows "base a1 = base a \<and> reserved_size a1 = reserved_size a \<and> page_size a1 = page_size a"
  using assms
  by (auto simp: v_alloc_committ_def Let_def reserve_default_reserved va_commit_def
      split: if_splits)

lemma committ_calls_frame:
  assumes "base a \<noteq> NULL" and "committ_calls va a steps = (ps, a1)"
  shows "base a1 = base a \<and> reserved_size a1 = reserved_size a \<and> page_size a1 = page_size a"
  using assms
proof (induction steps arbitrary: a va ps a1)
  case Nil
  then show ?case by simp
next
  case (Cons s steps)
  obtain os n where s: "s = (os, n)" by (cases s)
  obtain p a' va' where step: "v_alloc_committ (with_answers va os) a n = (p, a', va')"
    by (cases "v_alloc_committ (with_answers va os) a n")
  obtain ps' a'' where rest: "committ_calls va' a' steps = (ps', a'')"
    by (cases "committ_calls va' a' steps")
  from Cons.prems(2) s step rest have a1: "a1 = a''" by simp
  note f = committ_frame [OF Cons.prems(1) step]
  with Cons.prems(1) have "base a' \<noteq> NULL" by simp
  from Cons.IH [OF this rest] f a1 show ?case by simp
qed

text \<open>One successful \<open>v_alloc_committ\<close> on an arena in that state, with \<open>end\<close> and
  \<open>base + 2 * reserved_size\<close> below a bound \<open>B\<close> that leaves room for the request:
  the pointer returned is the old cursor, the new cursor is the end of the range handed
  out, and the arena is in that state again, \<open>end\<close> still below \<open>B\<close>.\<close>

lemma committ_step:
  assumes st: "arena_state k a"
    and er: "unat (end' a) \<le> B"
    and rb: "unat (base a) + 2 * unat (reserved_size a) \<le> B"
    and nw: "B + unat n + 16 + 2 ^ k \<le> 2 ^ 64"
    and res: "v_alloc_committ va a n = (p, a1, va1)"
    and ok: "p \<noteq> NULL"
  shows "p = ptr a"
    and "unat (ptr a1) = unat (ptr a) + unat (ALIGN_UP n V_ALLOC_ALIGNMENT)"
    and "0 < unat (ALIGN_UP n V_ALLOC_ALIGNMENT)"
    and "arena_state k a1"
    and "base a1 = base a" and "reserved_size a1 = reserved_size a"
    and "unat (end' a1) \<le> B"
proof -
  let ?al = "ALIGN_UP n V_ALLOC_ALIGNMENT"
  let ?adj = "ALIGN_UP ?al (page_size a)"
  from st have b: "base a \<noteq> NULL" and pg: "page_size a = 2 ^ k" and k: "k < 64"
    and bp': "base a \<le> ptr a" and pe': "ptr a \<le> end' a"
    and p16: "16 dvd unat (ptr a)"
    by (simp_all add: arena_state_def)
  from bp' pe' have bp: "unat (base a) \<le> unat (ptr a)" and pe: "unat (ptr a) \<le> unat (end' a)"
    by (simp_all add: word_le_nat_alt)
  from res ok have n0: "n \<noteq> 0" by (auto simp: v_alloc_committ_def)
  have nw': "unat n + 16 + 2 ^ k \<le> 2 ^ 64" using nw by simp
  note r = committ_roundings [OF k nw']
  from n0 have "0 < unat n" by (simp add: unat_gt_0)
  with r(1) show pos: "0 < unat ?al" by linarith
  from p16 r(3) have d16: "16 dvd unat (ptr a) + unat ?al" by (rule dvd_add)
  have rd: "reserve_default va a = (True, a, va)" by (rule reserve_default_reserved [OF b])
  have all: "p = ptr a \<and> unat (ptr a1) = unat (ptr a) + unat ?al \<and> arena_state k a1
             \<and> base a1 = base a \<and> reserved_size a1 = reserved_size a
             \<and> unat (end' a1) \<le> B"
  proof (cases "end' a - ptr a < ?al")
    case False
    from res have a1: "a1 = a\<lparr>ptr := ptr a + ?al\<rparr>" and p: "p = ptr a"
      by (auto simp: committ_fits [OF n0 False])
    from False have "unat ?al \<le> unat (end' a - ptr a)" by (simp add: word_le_nat_alt not_less)
    with pe' have le: "unat ?al \<le> unat (end' a) - unat (ptr a)" by (simp add: unat_sub)
    with pe have "unat (ptr a) + unat ?al < 2 ^ 64"
      using unat_lt64 [of "end' a"] by linarith
    then have u: "unat (ptr a + ?al) = unat (ptr a) + unat ?al" by (rule unat_add_nowrap)
    from u le pe bp have "base a \<le> ptr a + ?al" "ptr a + ?al \<le> end' a"
      by (simp_all add: word_le_nat_alt)
    with d16 u b pg k er a1 p show ?thesis
      by (simp add: arena_state_def)
  next
    case True
    note g = res [unfolded committ_grows [OF n0 True rd]]
    from g ok have pass: "\<not> base a + reserved_size a < ptr a + ?adj"
      by (auto split: if_splits)
    with g have a1: "a1 = a\<lparr>end' := end' a + ?adj, ptr := ptr a + ?al\<rparr>"
      and p: "p = ptr a" by auto
    note s = committ_grow_step [OF bp' pe' pg k er nw pass]
    from True have "unat (end' a - ptr a) < unat ?al" by (simp add: word_less_nat_alt)
    with pe' have "unat (end' a) - unat (ptr a) < unat ?al" by (simp add: unat_sub)
    with pe have lt: "unat (end' a) < unat (ptr a) + unat ?al" by linarith
    with s(2,4) have e1: "unat (end' a) < unat (base a) + unat (reserved_size a)" by linarith
    from s(2) bp have "unat ?adj \<le> unat (reserved_size a)" by linarith
    with e1 s(1) rb have J: "unat (end' a + ?adj) \<le> B" by linarith
    from s(3) bp have b1: "base a \<le> ptr a + ?al" by (simp add: word_le_nat_alt)
    from s(1,3,4) pe have b2: "ptr a + ?al \<le> end' a + ?adj" by (simp add: word_le_nat_alt)
    from d16 s(3) J b1 b2 a1 p b pg k show ?thesis
      by (simp add: arena_state_def)
  qed
  then show "p = ptr a" and "unat (ptr a1) = unat (ptr a) + unat ?al" and "arena_state k a1"
    and "base a1 = base a" and "reserved_size a1 = reserved_size a"
    and "unat (end' a1) \<le> B" by simp_all
qed

text \<open>A successful \<open>v_alloc_reserve\<close> leaves the arena in that state when the platform's
  page size is a power of two and the address it answers is 16-byte aligned.\<close>

lemma reserve_arena_state:
  assumes "v_alloc_reserve va a n = (True, a1, va1)"
    and "V_Allocator.page_size va1 = 2 ^ k" and "k < 64"
    and "16 dvd unat (base a1)"
  shows "arena_state k a1"
  using reserve_cases [OF assms(1)] assms(2-)
  by (simp add: arena_state_def)

lemma ranges_Nil: "ranges [] steps = []"
  by (simp add: ranges_def)

lemma ranges_Cons:
  "ranges (p # ps) ((os, n) # steps) = (p, ALIGN_UP n V_ALLOC_ALIGNMENT) # ranges ps steps"
  by (simp add: ranges_def)

text \<open>A run of successful allocations: the ranges are adjacent, from the cursor before
  the run to the cursor after it.\<close>

lemma committ_calls_ranges:
  assumes "arena_state k a"
    and "unat (end' a) \<le> B"
    and "unat (base a) + 2 * unat (reserved_size a) \<le> B"
    and "\<forall>s\<in>set steps. B + unat (snd s) + 16 + 2 ^ k \<le> 2 ^ 64"
    and "committ_calls va a steps = (ps, a1)"
    and "NULL \<notin> set ps"
  shows "arena_state k a1 \<and> base a1 = base a \<and> reserved_size a1 = reserved_size a
         \<and> length ps = length steps
         \<and> unat (ptr a) \<le> unat (ptr a1)
         \<and> (\<forall>(q, l)\<in>set (ranges ps steps).
               16 dvd unat q \<and> unat (ptr a) \<le> unat q \<and> 0 < unat l
               \<and> unat q + unat l \<le> unat (ptr a1))
         \<and> sorted_wrt (\<lambda>(q, l) (q', l'). unat q + unat l \<le> unat q') (ranges ps steps)"
  using assms
proof (induction steps arbitrary: a va ps a1)
  case Nil
  then show ?case by (simp add: ranges_Nil)
next
  case (Cons s steps)
  obtain os n where s: "s = (os, n)" by (cases s)
  obtain p a' va' where step: "v_alloc_committ (with_answers va os) a n = (p, a', va')"
    by (cases "v_alloc_committ (with_answers va os) a n")
  obtain ps' a'' where rest: "committ_calls va' a' steps = (ps', a'')"
    by (cases "committ_calls va' a' steps")
  from Cons.prems(5) s step rest have ps: "ps = p # ps'" and a1: "a1 = a''" by simp_all
  from Cons.prems(6) ps have pn: "p \<noteq> NULL" and rn: "NULL \<notin> set ps'" by auto
  from Cons.prems(4) s have nw: "B + unat n + 16 + 2 ^ k \<le> 2 ^ 64" by simp
  note c = committ_step [OF Cons.prems(1,2,3) nw step pn]
  from Cons.prems(3) c(5,6)
  have rb': "unat (base a') + 2 * unat (reserved_size a') \<le> B" by simp
  from Cons.prems(4) have nws: "\<forall>s\<in>set steps. B + unat (snd s) + 16 + 2 ^ k \<le> 2 ^ 64"
    by simp
  from Cons.IH [OF c(4) c(7) rb' nws rest rn]
  have ih: "arena_state k a''" "base a'' = base a'" "reserved_size a'' = reserved_size a'"
    "length ps' = length steps" "unat (ptr a') \<le> unat (ptr a'')"
    "\<forall>(q, l)\<in>set (ranges ps' steps).
        16 dvd unat q \<and> unat (ptr a') \<le> unat q \<and> 0 < unat l
        \<and> unat q + unat l \<le> unat (ptr a'')"
    "sorted_wrt (\<lambda>(q, l) (q', l'). unat q + unat l \<le> unat q') (ranges ps' steps)"
    by simp_all
  let ?al = "ALIGN_UP n V_ALLOC_ALIGNMENT"
  from Cons.prems(1) have p16: "16 dvd unat (ptr a)" by (simp add: arena_state_def)
  have r: "ranges ps (s # steps) = (p, ?al) # ranges ps' steps"
    by (simp add: ps s ranges_Cons)
  have first: "16 dvd unat p \<and> unat (ptr a) \<le> unat p \<and> 0 < unat ?al
               \<and> unat p + unat ?al \<le> unat (ptr a'')"
    using c(1,2,3) ih(5) p16 by simp
  have others: "\<forall>(q, l)\<in>set (ranges ps' steps).
        16 dvd unat q \<and> unat (ptr a) \<le> unat q \<and> 0 < unat l
        \<and> unat q + unat l \<le> unat (ptr a'') \<and> unat p + unat ?al \<le> unat q"
    using ih(6) c(1,2) by auto
  from ih(1,2,3,4,5) c(2,5,6) a1 ps
  have "arena_state k a1 \<and> base a1 = base a \<and> reserved_size a1 = reserved_size a
         \<and> length ps = length (s # steps) \<and> unat (ptr a) \<le> unat (ptr a1)"
    by simp
  moreover from first others a1
  have "\<forall>(q, l)\<in>set (ranges ps (s # steps)).
               16 dvd unat q \<and> unat (ptr a) \<le> unat q \<and> 0 < unat l
               \<and> unat q + unat l \<le> unat (ptr a1)"
    by (auto simp: r)
  moreover from others ih(7)
  have "sorted_wrt (\<lambda>(q, l) (q', l'). unat q + unat l \<le> unat q') (ranges ps (s # steps))"
    by (auto simp: r)
  ultimately show ?case by blast
qed

text \<open>The run on a reserved arena, in the terms of the ranges.\<close>

lemma bump_reserved:
  assumes st: "arena_state k a"
    and nw: "\<forall>s\<in>set steps.
           unat (end' a) + unat (snd s) + 16 + 2 ^ k \<le> 2 ^ 64
           \<and> unat (base a) + 2 * unat (reserved_size a) + unat (snd s) + 16 + 2 ^ k \<le> 2 ^ 64"
    and run: "committ_calls va a steps = (ps, a1)"
    and ok: "NULL \<notin> set ps"
  shows "length ps = length steps
       \<and> base a1 = base a
       \<and> (\<forall>(q, l)\<in>set (ranges ps steps).
             16 dvd unat q \<and> base a1 \<le> q \<and> 0 < unat l
             \<and> unat q + unat l \<le> unat (end' a1))
       \<and> sorted_wrt (\<lambda>(q, l) (q', l'). q < q' \<and> unat q + unat l \<le> unat q')
            (ranges ps steps)"
proof -
  define B where "B = max (unat (end' a)) (unat (base a) + 2 * unat (reserved_size a))"
  have er: "unat (end' a) \<le> B" and rb: "unat (base a) + 2 * unat (reserved_size a) \<le> B"
    by (simp_all add: B_def)
  have nwB: "\<forall>s\<in>set steps. B + unat (snd s) + 16 + 2 ^ k \<le> 2 ^ 64"
    using nw by (auto simp: B_def max_def)
  note r = committ_calls_ranges [OF st er rb nwB run ok]
  from r have st1: "arena_state k a1" and b: "base a1 = base a" by simp_all
  from st have bp: "unat (base a) \<le> unat (ptr a)"
    by (simp add: arena_state_def word_le_nat_alt)
  from st1 have pe: "unat (ptr a1) \<le> unat (end' a1)"
    by (simp add: arena_state_def word_le_nat_alt)
  from r have each: "\<forall>(q, l)\<in>set (ranges ps steps).
               16 dvd unat q \<and> unat (ptr a) \<le> unat q \<and> 0 < unat l
               \<and> unat q + unat l \<le> unat (ptr a1)" by simp
  with bp pe b have "\<forall>(q, l)\<in>set (ranges ps steps).
             16 dvd unat q \<and> base a1 \<le> q \<and> 0 < unat l
             \<and> unat q + unat l \<le> unat (end' a1)"
    by (fastforce simp: word_le_nat_alt)
  moreover from r
  have srt: "sorted_wrt (\<lambda>(q, l) (q', l'). unat q + unat l \<le> unat q') (ranges ps steps)"
    by simp
  have "sorted_wrt (\<lambda>(q, l) (q', l'). q < q' \<and> unat q + unat l \<le> unat q')
            (ranges ps steps)"
  proof (rule sorted_wrt_mono_rel [OF _ srt])
    fix x y assume x: "x \<in> set (ranges ps steps)" and y: "y \<in> set (ranges ps steps)"
      and le: "(case x of (q, l) \<Rightarrow> \<lambda>(q', l'). unat q + unat l \<le> unat q') y"
    from each x have "0 < unat (snd x)" by auto
    with le show "(case x of (q, l) \<Rightarrow> \<lambda>(q', l'). q < q' \<and> unat q + unat l \<le> unat q') y"
      by (auto simp: word_less_nat_alt split: prod.splits)
  qed
  moreover from r have "length ps = length steps" by simp
  ultimately show ?thesis using b by blast
qed

text \<open>The first call on the zero descriptor reserves, and from there on it is a call on
  the arena it has reserved.\<close>

lemma with_answers_reserve_default:
  assumes "reserve_default (with_answers va os) a = (ok, a0, va0)"
  shows "with_answers va0 os = va0"
  using assms
  by (auto simp: reserve_default_def v_alloc_reserve_def va_reserve_def with_answers_def
      Let_def split: if_splits prod.splits)

lemma committ_lazy:
  assumes n0: "n \<noteq> 0" and pos: "0 < ALIGN_UP n V_ALLOC_ALIGNMENT"
    and res: "v_alloc_committ va AllocInfo_zero n = (p, a1, va1)"
    and ok: "p \<noteq> NULL"
  shows "\<exists>a0 va0. reserve_default va AllocInfo_zero = (True, a0, va0)
           \<and> base a0 \<noteq> NULL \<and> ptr a0 = base a0 \<and> end' a0 = base a0
           \<and> v_alloc_committ va0 a0 n = (p, a1, va1)"
proof -
  let ?z = AllocInfo_zero
  have z: "base ?z = NULL" "end' ?z - ptr ?z = 0" by (simp_all add: AllocInfo_zero_def NULL_def)
  from pos z have grow: "end' ?z - ptr ?z < ALIGN_UP n V_ALLOC_ALIGNMENT" by simp
  obtain rok a0 va0 where rd: "reserve_default va ?z = (rok, a0, va0)"
    by (cases "reserve_default va ?z")
  have rok
  proof (rule ccontr)
    assume "\<not> rok"
    with rd have "reserve_default va ?z = (False, a0, va0)" by simp
    from committ_reserve_fails [OF n0 grow this] res ok show False by simp
  qed
  with rd have rd': "reserve_default va ?z = (True, a0, va0)" by simp
  from reserve_default_cases [OF rd'] z(1)
  have f: "base a0 \<noteq> NULL" "ptr a0 = base a0" "end' a0 = base a0" by auto
  from f pos have grow0: "end' a0 - ptr a0 < ALIGN_UP n V_ALLOC_ALIGNMENT" by simp
  have rd0: "reserve_default va0 a0 = (True, a0, va0)"
    by (rule reserve_default_reserved [OF f(1)])
  have "v_alloc_committ va0 a0 n = v_alloc_committ va ?z n"
    by (simp only: committ_grows [OF n0 grow rd'] committ_grows [OF n0 grow0 rd0])
  with res rd' f show ?thesis by simp
qed


text \<open>
  C7, as stated, fails. The runs are on POSIX platforms, with 4096-byte pages unless
  said otherwise.
  \<^item> The rounding of a request may wrap around: on a 1 MiB arena at \<open>0x10000\<close> with one
    page committed, two allocations of \<open>SIZE_MAX\<close> bytes both succeed and both return
    \<open>0x10000\<close>, with ranges of length 0.
  \<^item> The cursor may be above \<open>end\<close>: after reserving 1 MiB, allocating 16 bytes and
    decommitting one byte, with no reset, an allocation of 16 bytes returns \<open>0x10010\<close>,
    and its range ends above \<open>end = 0x10000\<close>.
  \<^item> The page size may be 0: on an arena reserved while \<open>sysconf\<close> fails, an allocation
    of 16 bytes returns \<open>0x10000\<close> and commits nothing, and its range ends above
    \<open>end = 0x10000\<close>.
  \<^item> The platform may map at an address that is not a multiple of 16: on an arena
    reserved at \<open>0x10008\<close> the first allocation returns \<open>0x10008\<close>.
\<close>

theorem bump_monotonicity_counterexample:
  "committ_calls (v_alloc_posix (posix_ok 0x10000)) (arena 0x10000 0 4096 0x100000)
     [(v_alloc_posix (posix_ok 0x10000), SIZE_MAX), (v_alloc_posix (posix_ok 0x10000), SIZE_MAX)]
     = ([0x10000, 0x10000], arena 0x10000 0 4096 0x100000)
   \<and> NULL \<notin> set [0x10000, 0x10000 :: ptr]
   \<and> ranges [0x10000, 0x10000]
        [(v_alloc_posix (posix_ok 0x10000), SIZE_MAX), (v_alloc_posix (posix_ok 0x10000), SIZE_MAX)]
      = [(0x10000, 0), (0x10000, 0)]
   \<and> \<not> sorted_wrt (\<lambda>(q, l) (q', l'). q < q') [(0x10000 :: ptr, 0 :: size_t), (0x10000, 0)]
   \<and> v_alloc_decommit (v_alloc_posix (posix_ok 0x10000))
        (Some (arena 0x10000 16 4096 0x100000)) 1
      = (True, Some (arena 0x10000 16 0 0x100000),
         (v_alloc_posix (posix_ok 0x10000))\<lparr>calls := [Decommit 0x10000 4096]\<rparr>)
   \<and> committ_calls (v_alloc_posix (posix_ok 0x10000)) (arena 0x10000 16 0 0x100000)
        [(v_alloc_posix (posix_ok 0x10000), 16)]
      = ([0x10010], arena 0x10000 32 0 0x100000)
   \<and> (0x10010 :: ptr) \<noteq> NULL
   \<and> ranges [0x10010] [(v_alloc_posix (posix_ok 0x10000), 16)] = [(0x10010, 16)]
   \<and> unat (end' (arena 0x10000 32 0 0x100000)) < unat (0x10010 :: ptr) + unat (16 :: size_t)
   \<and> v_alloc_reserve (v_alloc_posix (posix_no_page_size 0x10000)) AllocInfo_zero 0x100000
      = (True, (arena 0x10000 0 0 0x100000)\<lparr>page_size := 0\<rparr>,
         (v_alloc_posix (posix_no_page_size 0x10000))\<lparr>calls := [Reserve 0x100000]\<rparr>)
   \<and> committ_calls (v_alloc_posix (posix_no_page_size 0x10000))
        ((arena 0x10000 0 0 0x100000)\<lparr>page_size := 0\<rparr>)
        [(v_alloc_posix (posix_no_page_size 0x10000), 16)]
      = ([0x10000], (arena 0x10000 16 0 0x100000)\<lparr>page_size := 0\<rparr>)
   \<and> (0x10000 :: ptr) \<noteq> NULL
   \<and> unat (end' ((arena 0x10000 16 0 0x100000)\<lparr>page_size := 0\<rparr>))
       < unat (0x10000 :: ptr) + unat (16 :: size_t)
   \<and> v_alloc_reserve (v_alloc_posix (posix_ok 0x10008)) AllocInfo_zero 0x100000
      = (True, arena 0x10008 0 0 0x100000,
         (v_alloc_posix (posix_ok 0x10008))
           \<lparr>V_Allocator.page_size := 4096, calls := [Reserve 0x100000]\<rparr>)
   \<and> committ_calls (v_alloc_posix (posix_ok 0x10008)) (arena 0x10008 0 0 0x100000)
        [(v_alloc_posix (posix_ok 0x10008), 16)]
      = ([0x10008], arena 0x10008 16 4096 0x100000)
   \<and> (0x10008 :: ptr) \<noteq> NULL
   \<and> \<not> 16 dvd unat (0x10008 :: ptr)"
  by (simp add: platform_defs arena_defs ranges_def word_sle_eq)

text \<open>
  C7, amended. Take an arena that is reserved, with the cursor between \<open>base\<close> and
  \<open>end\<close> and 16-byte aligned, or a zero descriptor that the first call reserves at a
  16-byte aligned address; let the page size be a power of two. Then for every sequence
  of \<open>v_alloc_committ\<close> calls with no other call on the descriptor between them,
  whatever the platform answers, in which no call returns \<open>NULL\<close> and whose sizes are
  small enough that neither \<open>end\<close> nor \<open>base + 2 * reserved_size\<close>, plus the request
  and its roundings, wraps around:
  \<^item> every call hands out a range, and a reserved arena keeps its \<open>base\<close>;
  \<^item> each range starts at a multiple of 16, at or above \<open>base\<close>, is not empty, and ends
    at or below \<open>end\<close> as the last call leaves it;
  \<^item> each range starts strictly above the start of every range handed out before it,
    and at or above the end of that range: the starts increase strictly and no two
    ranges overlap.
\<close>

theorem bump_monotonicity:
  assumes run: "committ_calls va a steps = (ps, a1)"
    and ok: "NULL \<notin> set ps"
    and pg: "page_size a1 = 2 ^ k" and k: "k < 64"
    and start: "if base a = NULL then a = AllocInfo_zero \<and> 16 dvd unat (base a1)
                else base a \<le> ptr a \<and> ptr a \<le> end' a \<and> 16 dvd unat (ptr a)"
    and nw: "\<forall>s\<in>set steps.
           unat (end' a) + unat (snd s) + 16 + 2 ^ k \<le> 2 ^ 64
           \<and> unat (base a1) + 2 * unat (reserved_size a1) + unat (snd s) + 16 + 2 ^ k
              \<le> 2 ^ 64"
  shows "length ps = length steps
       \<and> (base a \<noteq> NULL \<longrightarrow> base a1 = base a)
       \<and> (\<forall>(q, l)\<in>set (ranges ps steps).
             16 dvd unat q \<and> base a1 \<le> q \<and> 0 < unat l
             \<and> unat q + unat l \<le> unat (end' a1))
       \<and> sorted_wrt (\<lambda>(q, l) (q', l'). q < q' \<and> unat q + unat l \<le> unat q')
            (ranges ps steps)"
proof (cases "base a = NULL")
  case False
  note f = committ_calls_frame [OF False run]
  from start False pg k f have st: "arena_state k a" by (simp add: arena_state_def)
  from nw f have nw': "\<forall>s\<in>set steps.
           unat (end' a) + unat (snd s) + 16 + 2 ^ k \<le> 2 ^ 64
           \<and> unat (base a) + 2 * unat (reserved_size a) + unat (snd s) + 16 + 2 ^ k \<le> 2 ^ 64"
    by simp
  from bump_reserved [OF st nw' run ok] f show ?thesis by simp
next
  case True
  with start have z: "a = AllocInfo_zero" and al: "16 dvd unat (base a1)" by simp_all
  have nz: "(2 ^ k :: 64 word) \<noteq> 0"
    using unat_pow2 [OF k] by (auto simp: unat_eq_0 [symmetric] simp del: unat_eq_0)
  show ?thesis
  proof (cases steps)
    case Nil
    with run z have "a1 = AllocInfo_zero" by simp
    with pg nz show ?thesis by (simp add: AllocInfo_zero_def)
  next
    case (Cons s rest)
    obtain os n where s: "s = (os, n)" by (cases s)
    obtain p a' va' where
      step: "v_alloc_committ (with_answers va os) AllocInfo_zero n = (p, a', va')"
      by (cases "v_alloc_committ (with_answers va os) AllocInfo_zero n")
    obtain ps' a'' where rest: "committ_calls va' a' rest = (ps', a'')"
      by (cases "committ_calls va' a' rest")
    from run z Cons s step rest have ps: "ps = p # ps'" and a1: "a1 = a''" by simp_all
    from ok ps have pn: "p \<noteq> NULL" by auto
    with step have n0: "n \<noteq> 0" by (auto simp: v_alloc_committ_def)
    from nw Cons s have "unat n + 16 \<le> 2 ^ 64" by simp
    from align16_ge [OF this] n0 have "0 < unat (ALIGN_UP n V_ALLOC_ALIGNMENT)"
      by (simp add: unat_gt_0 [symmetric] del: unat_gt_0)
    then have pos: "0 < ALIGN_UP n V_ALLOC_ALIGNMENT" by (simp add: word_less_nat_alt)
    from committ_lazy [OF n0 pos step pn] obtain a0 va0 where
      rd: "reserve_default (with_answers va os) AllocInfo_zero = (True, a0, va0)"
      and f0: "base a0 \<noteq> NULL" "ptr a0 = base a0" "end' a0 = base a0"
      and eq: "v_alloc_committ va0 a0 n = (p, a', va')" by blast
    have wa: "with_answers va0 os = va0" by (rule with_answers_reserve_default [OF rd])
    from eq wa rest ps a1 Cons s have run0: "committ_calls va0 a0 steps = (ps, a1)" by simp
    note f = committ_calls_frame [OF f0(1) run0]
    from f0 f pg k al have st0: "arena_state k a0" by (simp add: arena_state_def)
    from nw f f0 have nw0: "\<forall>s\<in>set steps.
           unat (end' a0) + unat (snd s) + 16 + 2 ^ k \<le> 2 ^ 64
           \<and> unat (base a0) + 2 * unat (reserved_size a0) + unat (snd s) + 16 + 2 ^ k \<le> 2 ^ 64"
      by auto
    from bump_reserved [OF st0 nw0 run0 ok] True show ?thesis by blast
  qed
qed

text \<open>The witness: on a zero descriptor, allocations of 33, 5000 and 40 bytes, the
  platform mapping at \<open>0x10000\<close> and answering differently each time; and the same
  allocations on a fresh 1 MiB arena.\<close>

theorem bump_monotonicity_witness:
  "committ_calls (v_alloc_posix (posix_ok 0x10000)) AllocInfo_zero
        [(v_alloc_posix (posix_ok 0x10000), 33),
         (v_alloc_posix (posix_mprotect_fails 0x10000), 5000),
         (commit_refused 0, 40)]
      = ([0x10000, 0x10030, 0x113C0], arena 0x10000 5104 12288 0x40000000)
   \<and> NULL \<notin> set [0x10000, 0x10030, 0x113C0 :: ptr]
   \<and> page_size (arena 0x10000 5104 12288 0x40000000) = 2 ^ 12 \<and> (12 :: nat) < 64
   \<and> base AllocInfo_zero = NULL
   \<and> 16 dvd unat (base (arena 0x10000 5104 12288 0x40000000))
   \<and> unat (end' AllocInfo_zero) + unat (5000 :: size_t) + 16 + 2 ^ 12 \<le> (2 :: nat) ^ 64
   \<and> unat (base (arena 0x10000 5104 12288 0x40000000))
       + 2 * unat (reserved_size (arena 0x10000 5104 12288 0x40000000))
       + unat (5000 :: size_t) + 16 + 2 ^ 12 \<le> (2 :: nat) ^ 64
   \<and> ranges [0x10000, 0x10030, 0x113C0]
        [(v_alloc_posix (posix_ok 0x10000), 33),
         (v_alloc_posix (posix_mprotect_fails 0x10000), 5000),
         (commit_refused 0, 40)]
      = [(0x10000, 48), (0x10030, 5008), (0x113C0, 48)]
   \<and> sorted_wrt (\<lambda>(q, l) (q', l'). q < q' \<and> unat q + unat l \<le> unat q')
        [(0x10000 :: ptr, 48 :: size_t), (0x10030, 5008), (0x113C0, 48)]
   \<and> unat (0x113C0 :: ptr) + unat (48 :: size_t)
       \<le> unat (end' (arena 0x10000 5104 12288 0x40000000))
   \<and> committ_calls (v_alloc_posix (posix_ok 0x10000)) (arena 0x10000 0 0 0x100000)
        [(v_alloc_posix (posix_ok 0x10000), 33),
         (v_alloc_posix (posix_mprotect_fails 0x10000), 5000),
         (commit_refused 0, 40)]
      = ([0x10000, 0x10030, 0x113C0], arena 0x10000 5104 12288 0x100000)
   \<and> base (arena 0x10000 0 0 0x100000) \<noteq> NULL
   \<and> base (arena 0x10000 0 0 0x100000) \<le> ptr (arena 0x10000 0 0 0x100000)
   \<and> ptr (arena 0x10000 0 0 0x100000) \<le> end' (arena 0x10000 0 0 0x100000)
   \<and> 16 dvd unat (ptr (arena 0x10000 0 0 0x100000))
   \<and> base (arena 0x10000 5104 12288 0x100000) = base (arena 0x10000 0 0 0x100000)"
proof -
  let ?steps = "[(v_alloc_posix (posix_ok 0x10000), 33),
         (v_alloc_posix (posix_mprotect_fails 0x10000), 5000),
         (commit_refused 0, 40 :: size_t)]"
  let ?a1 = "arena 0x10000 5104 12288 0x40000000"
  let ?b = "arena 0x10000 0 0 0x100000"
  let ?b1 = "arena 0x10000 5104 12288 0x100000"
  have r1: "committ_calls (v_alloc_posix (posix_ok 0x10000)) AllocInfo_zero ?steps
      = ([0x10000, 0x10030, 0x113C0], ?a1)"
    by (simp add: platform_defs arena_defs word_sle_eq)
  have r2: "committ_calls (v_alloc_posix (posix_ok 0x10000)) ?b ?steps
      = ([0x10000, 0x10030, 0x113C0], ?b1)"
    by (simp add: platform_defs arena_defs)
  have ok: "NULL \<notin> set [0x10000, 0x10030, 0x113C0 :: ptr]" by (simp add: NULL_def)
  have pg1: "page_size ?a1 = 2 ^ 12" and pg2: "page_size ?b1 = 2 ^ 12" and k: "(12 :: nat) < 64"
    by (simp_all add: arena_def)
  have s1: "if base AllocInfo_zero = NULL
            then AllocInfo_zero = AllocInfo_zero \<and> 16 dvd unat (base ?a1)
            else base AllocInfo_zero \<le> ptr AllocInfo_zero
                 \<and> ptr AllocInfo_zero \<le> end' AllocInfo_zero
                 \<and> 16 dvd unat (ptr AllocInfo_zero)"
    by (simp add: arena_defs)
  have s2: "if base ?b = NULL then ?b = AllocInfo_zero \<and> 16 dvd unat (base ?b1)
            else base ?b \<le> ptr ?b \<and> ptr ?b \<le> end' ?b \<and> 16 dvd unat (ptr ?b)"
    by (simp add: arena_defs)
  have n1: "\<forall>s\<in>set ?steps.
           unat (end' AllocInfo_zero) + unat (snd s) + 16 + 2 ^ 12 \<le> 2 ^ 64
           \<and> unat (base ?a1) + 2 * unat (reserved_size ?a1) + unat (snd s) + 16 + 2 ^ 12
              \<le> 2 ^ 64"
    by (simp add: arena_defs)
  have n2: "\<forall>s\<in>set ?steps.
           unat (end' ?b) + unat (snd s) + 16 + 2 ^ 12 \<le> 2 ^ 64
           \<and> unat (base ?b1) + 2 * unat (reserved_size ?b1) + unat (snd s) + 16 + 2 ^ 12
              \<le> 2 ^ 64"
    by (simp add: arena_defs)
  have r: "ranges [0x10000, 0x10030, 0x113C0] ?steps
      = [(0x10000, 48), (0x10030, 5008), (0x113C0, 48)]"
    by (simp add: ranges_def ALIGN_UP_def V_ALLOC_ALIGNMENT_def)
  from bump_monotonicity [OF r1 ok pg1 k s1 n1] bump_monotonicity [OF r2 ok pg2 k s2 n2]
    r1 r2 ok r
  show ?thesis by (simp add: arena_defs)
qed

end
